theory Spec2Isabelle
  imports Complex_Main "HOL-Library.Word" "HOL-Library.Sublist" "HOL-Library.Log_Nat"
begin

section \<open>Pixel buffers\<close>

text \<open>
  The generators of \<^verbatim>\<open>utils/textureUtils\<close> work on the \<^verbatim>\<open>ImageData\<close> of a canvas:
  a width, a height and a flat \<^verbatim>\<open>Uint8ClampedArray\<close> holding four bytes (R, G, B, A)
  per pixel, row by row. The bytes of the array are 8-bit words.

  The numbers of the language are modelled twice. The first sections compute with real
  numbers, exactly: this idealisation carries the statements that do not depend on the
  rounding of the arithmetic (the dimensions of the maps, the wiring of the pipeline,
  the flat image, the bound on the norm of a stored normal). The sections on
  double-precision numbers then give the arithmetic as the language does it, every
  operation rounded to the nearest double, and the loops of the generators over it:
  these carry the statements about the bytes of single pixels.
\<close>

type_synonym byte = "8 word"

record image =
  width :: nat
  height :: nat
  data :: "byte list"

text \<open>
  A decoded image has positive dimensions (a canvas refuses \<^verbatim>\<open>getImageData\<close> on an
  empty rectangle) and \<^verbatim>\<open>getImageData\<close> returns four bytes per pixel.
\<close>

definition wf_image :: "image \<Rightarrow> bool" where
  "wf_image img =
     (0 < width img \<and> 0 < height img \<and> length (data img) = 4 * (width img * height img))"

text \<open>Reading an element of the array gives a number.\<close>

definition num :: "byte \<Rightarrow> real" where
  "num b = real (unat b)"

text \<open>
  Storing a number into a \<^verbatim>\<open>Uint8ClampedArray\<close> converts it with the language's
  \<^verbatim>\<open>ToUint8Clamp\<close>: clamp to the interval from 0 to 255, then take the nearest
  integer, an exact half going to the even neighbour.
\<close>

definition toUint8Clamp :: "real \<Rightarrow> byte" where
  "toUint8Clamp v =
     (let clamped = min (max v 0) 255;
          f = \<lfloor>clamped\<rfloor>
      in if clamped < real_of_int f + 0.5 then word_of_int f
         else if clamped > real_of_int f + 0.5 then word_of_int (f + 1)
         else if even f then word_of_int f
         else word_of_int (f + 1))"

section \<open>Per-pixel grayscale generators\<close>

text \<open>
  The roughness, ambient-occlusion and height generators share one loop,
  \<^verbatim>\<open>for (let i = 0; i < data.length; i += 4)\<close>, which reads the three colour bytes
  at \<open>i\<close>, \<open>i + 1\<close>, \<open>i + 2\<close>, takes their mean \<open>avg\<close>, and assigns one number to the
  three of them in place (\<^verbatim>\<open>data[i] = data[i + 1] = data[i + 2] = ...\<close>, right to left).
  The byte at \<open>i + 3\<close> is not touched. The loop is parameterised by the function from
  \<open>avg\<close> to the number assigned.
\<close>

function gray_loop :: "(real \<Rightarrow> real) \<Rightarrow> nat \<Rightarrow> byte list \<Rightarrow> byte list" where
  "gray_loop f i d =
     (if i < length d then
        (let avg = (num (d ! i) + num (d ! (i + 1)) + num (d ! (i + 2))) / 3;
             v = toUint8Clamp (f avg)
         in gray_loop f (i + 4) (d[i + 2 := v, i + 1 := v, i := v]))
      else d)"
  by pat_completeness auto
termination
  by (relation "measure (\<lambda>(f, i, d). length d - i)") auto

declare gray_loop.simps [simp del]


text \<open>The numbers assigned by the three generators, as functions of \<open>avg\<close>.\<close>

definition roughness_val :: "real \<Rightarrow> real \<Rightarrow> real" where
  "roughness_val multiplier avg =
     (let val = (255 - avg) * multiplier;
          val = ((val / 255 - 0.5) * 1.5 + 0.5) * 255
      in min 255 (max 0 val))"

definition ao_val :: "real \<Rightarrow> real" where
  "ao_val avg = (if avg < 100 then (avg / 100) * 255 else 255)"

definition height_val :: "real \<Rightarrow> real" where
  "height_val avg =
     (let val = ((avg / 255 - 0.5) * 1.2 + 0.5) * 255
      in min 255 (max 0 val))"

section \<open>The platform: image decoding and the canvas\<close>

text \<open>
  A thrown value is an \<^verbatim>\<open>Error\<close> with a message, or the event an \<^verbatim>\<open>Image\<close>
  element passes to \<^verbatim>\<open>onerror\<close>, which has no message.
\<close>

datatype js_error = JsError string | ImageErrorEvent

text \<open>
  The text of the analysis service's response is represented by what \<^verbatim>\<open>JSON.parse\<close>
  makes of it: absent or empty (then \<^verbatim>\<open>'{}'\<close> is parsed instead), not parseable,
  or a JSON value.
\<close>

datatype json =
    JNull
  | JBool bool
  | JNum real
  | JStr string
  | JArr "json list"
  | JObj "(string \<times> json) list"

datatype response_text = TextAbsent | TextUnparseable | TextJson json

datatype api_result = ApiThrows js_error | ApiReturns response_text

text \<open>
  What the browser and the service do is a parameter of the model: \<open>decode\<close> is the
  pixel buffer an \<^verbatim>\<open>Image\<close> element yields for a source once drawn on a canvas of its
  size and read back (\<open>None\<close> when the element fires \<^verbatim>\<open>onerror\<close>), \<open>context2d\<close>
  tells whether \<^verbatim>\<open>getContext('2d')\<close> returns a context, and \<open>generateContent\<close> is
  the outcome of the analysis request for an image.
\<close>

record platform =
  decode :: "string \<Rightarrow> image option"
  context2d :: bool
  generateContent :: "string \<Rightarrow> api_result"

definition loadImage :: "platform \<Rightarrow> string \<Rightarrow> js_error + image" where
  "loadImage P src = (case decode P src of None \<Rightarrow> Inl ImageErrorEvent | Some img \<Rightarrow> Inr img)"

text \<open>
  The common prologue of the generators: load the image, create a canvas, fail with
  \<^verbatim>\<open>Canvas context failed\<close> when there is no context, size the canvas as the image.
\<close>

definition canvas_for :: "platform \<Rightarrow> string \<Rightarrow> js_error + image" where
  "canvas_for P imageSrc =
     (case loadImage P imageSrc of
        Inl e \<Rightarrow> Inl e
      | Inr img \<Rightarrow>
          if \<not> context2d P then Inl (JsError ''Canvas context failed'')
          else Inr img)"

section \<open>The grayscale generators\<close>

text \<open>
  The encoded result (\<^verbatim>\<open>canvas.toDataURL('image/png')\<close>) is represented by the pixel
  buffer that is encoded.
\<close>

definition generateRoughnessMap :: "platform \<Rightarrow> string \<Rightarrow> real \<Rightarrow> js_error + image" where
  "generateRoughnessMap P imageSrc multiplier =
     (case canvas_for P imageSrc of
        Inl e \<Rightarrow> Inl e
      | Inr imageData \<Rightarrow>
          Inr (imageData\<lparr>data := gray_loop (roughness_val multiplier) 0 (data imageData)\<rparr>))"

definition generateAOMap :: "platform \<Rightarrow> string \<Rightarrow> js_error + image" where
  "generateAOMap P imageSrc =
     (case canvas_for P imageSrc of
        Inl e \<Rightarrow> Inl e
      | Inr imageData \<Rightarrow>
          Inr (imageData\<lparr>data := gray_loop ao_val 0 (data imageData)\<rparr>))"

definition generateHeightMap :: "platform \<Rightarrow> string \<Rightarrow> js_error + image" where
  "generateHeightMap P imageSrc =
     (case canvas_for P imageSrc of
        Inl e \<Rightarrow> Inl e
      | Inr imageData \<Rightarrow>
          Inr (imageData\<lparr>data := gray_loop height_val 0 (data imageData)\<rparr>))"

section \<open>The metalness generator\<close>

text \<open>
  \<^verbatim>\<open>fillRect(0, 0, canvas.width, canvas.height)\<close> with the opaque fill style
  \<^verbatim>\<open>rgb(val,val,val)\<close> sets every pixel of the canvas to that colour. The image is
  loaded for its size only; it is never drawn.
\<close>

definition fillRect :: "nat \<Rightarrow> nat \<Rightarrow> byte \<Rightarrow> byte list" where
  "fillRect w h val = concat (replicate (w * h) [val, val, val, 255])"

definition generateMetalnessMap :: "platform \<Rightarrow> string \<Rightarrow> bool \<Rightarrow> js_error + image" where
  "generateMetalnessMap P imageSrc isMetal =
     (case canvas_for P imageSrc of
        Inl e \<Rightarrow> Inl e
      | Inr img \<Rightarrow>
          (let val = (if isMetal then 255 else 0)
           in Inr \<lparr>width = width img, height = height img,
                    data = fillRect (width img) (height img) val\<rparr>))"

section \<open>The normal map generator\<close>

text \<open>
  One term of the sum in \<^verbatim>\<open>getSmoothHeight\<close>: the coordinates are clamped with
  \<^verbatim>\<open>Math.max(0, Math.min(width - 1, ...))\<close>, the pixel is read at the flat index
  \<open>(nx + ny * width) * 4\<close>, and its three colour bytes are added and divided by 765.
\<close>

definition sample :: "image \<Rightarrow> int \<Rightarrow> int \<Rightarrow> real" where
  "sample img sx sy =
     (let nx = max 0 (min (int (width img) - 1) sx);
          ny = max 0 (min (int (height img) - 1) sy);
          px = nat ((nx + ny * int (width img)) * 4)
      in (num (data img ! px) + num (data img ! (px + 1)) + num (data img ! (px + 2))) / 765)"

text \<open>The two nested loops over \<open>ox\<close> and \<open>oy\<close>, carrying \<open>total\<close> and \<open>count\<close>.\<close>

definition getSmoothHeight :: "image \<Rightarrow> int \<Rightarrow> int \<Rightarrow> real" where
  "getSmoothHeight img x y =
     (let (total, count) =
        fold (\<lambda>ox. fold (\<lambda>oy (total, count).
                (total + sample img (x + ox) (y + oy), count + 1)) [-1, 0, 1])
             [-1, 0, 1] (0, 0 :: real)
      in total / count)"

text \<open>The four numbers stored for the pixel at \<open>(x, y)\<close>, converted by the store.\<close>

definition normal_pixel :: "image \<Rightarrow> real \<Rightarrow> nat \<Rightarrow> nat \<Rightarrow> byte list" where
  "normal_pixel img strength x y =
     (let hL = getSmoothHeight img (int x - 1) (int y);
          hR = getSmoothHeight img (int x + 1) (int y);
          hU = getSmoothHeight img (int x) (int y - 1);
          hD = getSmoothHeight img (int x) (int y + 1);
          dx = (hL - hR) * strength;
          dy = (hU - hD) * strength;
          dz = 1;
          len = sqrt (dx * dx + dy * dy + dz * dz)
      in [toUint8Clamp (((dx / len) * 0.5 + 0.5) * 255),
          toUint8Clamp (((dy / len) * 0.5 + 0.5) * 255),
          toUint8Clamp (((dz / len) * 0.5 + 0.5) * 255),
          toUint8Clamp 255])"

text \<open>
  The body of the inner loop writes the four bytes of the pixel at
  \<open>idx = (y * width + x) * 4\<close> into the output buffer; the loops run over the
  columns \<open>x\<close> of each row \<open>y\<close>.
\<close>

definition write_pixel :: "image \<Rightarrow> real \<Rightarrow> nat \<Rightarrow> nat \<Rightarrow> byte list \<Rightarrow> byte list" where
  "write_pixel img strength y x outData =
     (let idx = (y * width img + x) * 4;
          p = normal_pixel img strength x y
      in outData[idx := p ! 0, idx + 1 := p ! 1, idx + 2 := p ! 2, idx + 3 := p ! 3])"

definition normal_row :: "image \<Rightarrow> real \<Rightarrow> nat \<Rightarrow> byte list \<Rightarrow> byte list" where
  "normal_row img strength y outData =
     fold (write_pixel img strength y) [0..<width img] outData"

definition normal_loop :: "image \<Rightarrow> real \<Rightarrow> byte list \<Rightarrow> byte list" where
  "normal_loop img strength outData =
     fold (normal_row img strength) [0..<height img] outData"

text \<open>\<^verbatim>\<open>createImageData(width, height)\<close> gives a buffer of zeros.\<close>

definition createImageData :: "nat \<Rightarrow> nat \<Rightarrow> byte list" where
  "createImageData w h = replicate (4 * (w * h)) 0"

definition generateNormalMap :: "platform \<Rightarrow> string \<Rightarrow> real \<Rightarrow> js_error + image" where
  "generateNormalMap P imageSrc strength =
     (case canvas_for P imageSrc of
        Inl e \<Rightarrow> Inl e
      | Inr imageData \<Rightarrow>
          Inr \<lparr>width = width imageData, height = height imageData,
               data = normal_loop imageData strength
                        (createImageData (width imageData) (height imageData))\<rparr>)"

section \<open>Metadata analysis and the pipeline\<close>

record metadata =
  suggestedRoughness :: real
  suggestedMetalness :: real

text \<open>
  Reading the property \<^verbatim>\<open>suggestedRoughness\<close> or \<^verbatim>\<open>suggestedMetalness\<close> of the parsed
  value: \<^verbatim>\<open>null\<close> throws a \<^verbatim>\<open>TypeError\<close> (\<open>None\<close>), an object yields the
  property or \<^verbatim>\<open>undefined\<close>, every other value yields \<^verbatim>\<open>undefined\<close>.
\<close>

fun get_prop :: "json \<Rightarrow> string \<Rightarrow> json option option" where
  "get_prop JNull k = None"
| "get_prop (JObj ps) k = Some (map_of ps k)"
| "get_prop v k = Some None"

text \<open>\<^verbatim>\<open>typeof x === 'number' ? x : d\<close>\<close>

fun number_or :: "json option \<Rightarrow> real \<Rightarrow> real" where
  "number_or (Some (JNum r)) d = r"
| "number_or x d = d"

definition default_metadata :: metadata where
  "default_metadata = \<lparr>suggestedRoughness = 0.6, suggestedMetalness = 0.0\<rparr>"

text \<open>The body of the \<^verbatim>\<open>try\<close> block, \<open>None\<close> when it throws.\<close>

definition parse_metadata :: "response_text \<Rightarrow> metadata option" where
  "parse_metadata txt =
     (case (case txt of
              TextAbsent \<Rightarrow> Some (JObj [])
            | TextUnparseable \<Rightarrow> None
            | TextJson v \<Rightarrow> Some v) of
        None \<Rightarrow> None
      | Some parsed \<Rightarrow>
          (case get_prop parsed ''suggestedRoughness'' of
             None \<Rightarrow> None
           | Some r \<Rightarrow>
               (case get_prop parsed ''suggestedMetalness'' of
                  None \<Rightarrow> None
                | Some m \<Rightarrow>
                    Some \<lparr>suggestedRoughness = number_or r 0.6,
                          suggestedMetalness = number_or m 0.0\<rparr>)))"

text \<open>
  The request is made before the \<^verbatim>\<open>try\<close> block: what it throws leaves the function.
  What the block throws is caught and replaced by the defaults.
\<close>

definition analyzeTextureMetadata :: "platform \<Rightarrow> string \<Rightarrow> js_error + metadata" where
  "analyzeTextureMetadata P imageUrl =
     (case generateContent P imageUrl of
        ApiThrows e \<Rightarrow> Inl e
      | ApiReturns txt \<Rightarrow>
          (case parse_metadata txt of
             None \<Rightarrow> Inr default_metadata
           | Some md \<Rightarrow> Inr md))"

text \<open>\<^verbatim>\<open>a || b\<close> on numbers: \<open>b\<close> when \<open>a\<close> is zero.\<close>

definition js_or :: "real \<Rightarrow> real \<Rightarrow> real" where
  "js_or a b = (if a = 0 then b else a)"

text \<open>
  The derived maps are kept as pixel buffers; the field \<^verbatim>\<open>height\<close> of \<^verbatim>\<open>PBRMaps\<close> is
  named \<open>height_map\<close> here, apart from the height of an image.
\<close>

record PBRMaps =
  albedo :: "string option"
  normal :: "image option"
  roughness :: "image option"
  metalness :: "image option"
  ao :: "image option"
  height_map :: "image option"

record MaterialSettings =
  repeat :: real
  normalScale :: real
  roughnessIntensity :: real
  metalnessIntensity :: real
  displacementScale :: real

record app_state =
  maps :: PBRMaps
  settings :: MaterialSettings
  isGenerating :: bool
  error :: "string option"
  showKeyPrompt :: bool

text \<open>The arguments \<^verbatim>\<open>processAllMaps\<close> forms from the metadata.\<close>

definition roughness_multiplier :: "metadata \<Rightarrow> real" where
  "roughness_multiplier md = js_or (suggestedRoughness md) 0.6 * 1.2"

definition metal_flag :: "metadata \<Rightarrow> bool" where
  "metal_flag md = (js_or (suggestedMetalness md) 0 > 0.5)"

text \<open>
  The \<^verbatim>\<open>try\<close> block of \<^verbatim>\<open>processAllMaps\<close>: the metadata, then the five generators
  under \<^verbatim>\<open>Promise.all\<close>, which rejects as soon as one of them does.
\<close>

definition derive_maps ::
  "platform \<Rightarrow> string \<Rightarrow> js_error + (metadata \<times> PBRMaps)" where
  "derive_maps P albedoUrl =
     (case analyzeTextureMetadata P albedoUrl of Inl e \<Rightarrow> Inl e | Inr md \<Rightarrow>
      case generateNormalMap P albedoUrl 2.5 of Inl e \<Rightarrow> Inl e | Inr n \<Rightarrow>
      case generateRoughnessMap P albedoUrl (roughness_multiplier md) of Inl e \<Rightarrow> Inl e | Inr r \<Rightarrow>
      case generateMetalnessMap P albedoUrl (metal_flag md) of Inl e \<Rightarrow> Inl e | Inr m \<Rightarrow>
      case generateAOMap P albedoUrl of Inl e \<Rightarrow> Inl e | Inr a \<Rightarrow>
      case generateHeightMap P albedoUrl of Inl e \<Rightarrow> Inl e | Inr h \<Rightarrow>
        Inr (md, \<lparr>albedo = Some albedoUrl, normal = Some n, roughness = Some r,
                   metalness = Some m, ao = Some a, height_map = Some h\<rparr>))"

text \<open>\<^verbatim>\<open>msg.includes(sub)\<close> (\<open>includes\<close> is a keyword of Isabelle)\<close>

fun includes_str :: "string \<Rightarrow> string \<Rightarrow> bool" where
  "includes_str [] sub = (sub = [])"
| "includes_str (c # cs) sub = (prefix sub (c # cs) \<or> includes_str cs sub)"

fun message :: "js_error \<Rightarrow> string option" where
  "message (JsError m) = Some m"
| "message ImageErrorEvent = None"

text \<open>The \<^verbatim>\<open>catch\<close> block.\<close>

definition handle_error :: "js_error \<Rightarrow> app_state \<Rightarrow> app_state" where
  "handle_error err s =
     (case message err of
        None \<Rightarrow> s\<lparr>error := Some ''Failed processing high-quality maps.''\<rparr>
      | Some m \<Rightarrow>
          if includes_str m ''leaked'' \<or> includes_str m ''403'' then
            s\<lparr>error := Some ''API Key Terblokir (Leaked). Silakan buat API Key baru di Google AI Studio!'',
              showKeyPrompt := True\<rparr>
          else s\<lparr>error := Some (if m = [] then ''Failed processing high-quality maps.'' else m)\<rparr>)"

definition processAllMaps :: "platform \<Rightarrow> string \<Rightarrow> app_state \<Rightarrow> app_state" where
  "processAllMaps P albedoUrl s0 =
     (let s1 = s0\<lparr>isGenerating := True, error := None\<rparr>;
          s2 = (case derive_maps P albedoUrl of
                  Inr (md, ms) \<Rightarrow>
                    s1\<lparr>maps := ms,
                       settings := (settings s1)
                         \<lparr>roughnessIntensity := js_or (suggestedRoughness md) 0.6,
                          metalnessIntensity := js_or (suggestedMetalness md) 0\<rparr>\<rparr>
                | Inl err \<Rightarrow> handle_error err s1)
      in s2\<lparr>isGenerating := False\<rparr>)"

text \<open>The initial state of the component (\<^verbatim>\<open>useState\<close>).\<close>

definition initial_state :: app_state where
  "initial_state =
     \<lparr>maps = \<lparr>albedo = None, normal = None, roughness = None, metalness = None,
               ao = None, height_map = None\<rparr>,
      settings = \<lparr>repeat = 1, normalScale = 1.2, roughnessIntensity = 0.8,
                   metalnessIntensity = 0.2, displacementScale = 0.08\<rparr>,
      isGenerating = False, error = None, showKeyPrompt = False\<rparr>"

section \<open>Double-precision numbers\<close>

text \<open>Rounding to the nearest integer, an exact half going to the even neighbour.\<close>

definition round_half_even :: "real \<Rightarrow> int" where
  "round_half_even v =
     (if v - real_of_int \<lfloor>v\<rfloor> < 1 / 2 then \<lfloor>v\<rfloor>
      else if v - real_of_int \<lfloor>v\<rfloor> > 1 / 2 then \<lfloor>v\<rfloor> + 1
      else if even \<lfloor>v\<rfloor> then \<lfloor>v\<rfloor> else \<lfloor>v\<rfloor> + 1)"

text \<open>
  The numbers of the language are the values of IEEE 754 binary64. For a positive real
  \<open>x\<close>, \<open>ilog2 x\<close> is its binary exponent, the integer \<open>e\<close> with
  \<open>2 ^ e \<le> x < 2 ^ (e + 1)\<close>; the doubles around \<open>x\<close> are the multiples of
  \<open>2 ^ ulp_exp x\<close> (53 significant bits, and below \<open>2 ^ (- 1022)\<close> the fixed spacing
  of the subnormal numbers); \<open>fl x\<close> is the multiple nearest to \<open>x\<close>, an exact half
  going to the even one.
\<close>

definition ilog2 :: "real \<Rightarrow> int" where
  "ilog2 x = (if 1 \<le> x then bitlen \<lfloor>x\<rfloor> - 1 else - bitlen (\<lceil>1 / x\<rceil> - 1))"

definition ulp_exp :: "real \<Rightarrow> int" where
  "ulp_exp x = max (ilog2 \<bar>x\<bar>) (- 1022) - 52"

definition fl :: "real \<Rightarrow> real" where
  "fl x = (if x = 0 then 0
           else real_of_int (round_half_even (x / 2 powi ulp_exp x)) * 2 powi ulp_exp x)"

text \<open>
  A number is a finite double, an infinity or NaN. The two zeros are one value: the
  generators never divide by a computed zero, and \<^verbatim>\<open>Math.max\<close>, \<^verbatim>\<open>Math.min\<close>, the
  comparison and the byte store treat both zeros alike.
\<close>

datatype jsnum = Fin real | PInf | NInf | NaN

text \<open>
  The result of an operation is its exact result rounded; a rounded value with an
  exponent beyond 1023 is an infinity. A numeric literal is the nearest double.
\<close>

definition round64 :: "real \<Rightarrow> jsnum" where
  "round64 x =
     (let y = fl x
      in if y \<noteq> 0 \<and> 1024 \<le> ilog2 \<bar>y\<bar> then (if 0 < y then PInf else NInf) else Fin y)"

definition lit :: "real \<Rightarrow> jsnum" where
  "lit x = round64 x"

text \<open>Reading an element of the array.\<close>

definition jnum :: "byte \<Rightarrow> jsnum" where
  "jnum b = Fin (real (unat b))"

fun jneg :: "jsnum \<Rightarrow> jsnum" where
  "jneg (Fin a) = Fin (- a)"
| "jneg PInf = NInf"
| "jneg NInf = PInf"
| "jneg NaN = NaN"

fun jadd :: "jsnum \<Rightarrow> jsnum \<Rightarrow> jsnum" where
  "jadd (Fin a) (Fin b) = round64 (a + b)"
| "jadd NaN y = NaN"
| "jadd x NaN = NaN"
| "jadd PInf NInf = NaN"
| "jadd NInf PInf = NaN"
| "jadd PInf y = PInf"
| "jadd NInf y = NInf"
| "jadd (Fin a) y = y"

definition jsub :: "jsnum \<Rightarrow> jsnum \<Rightarrow> jsnum" where
  "jsub x y = jadd x (jneg y)"

fun jmul :: "jsnum \<Rightarrow> jsnum \<Rightarrow> jsnum" where
  "jmul (Fin a) (Fin b) = round64 (a * b)"
| "jmul NaN y = NaN"
| "jmul x NaN = NaN"
| "jmul (Fin a) y = (if a = 0 then NaN else if 0 < a then y else jneg y)"
| "jmul x (Fin b) = (if b = 0 then NaN else if 0 < b then x else jneg x)"
| "jmul PInf y = y"
| "jmul NInf y = jneg y"

text \<open>
  Division; for a finite number divided by zero the zero is taken as \<open>+0\<close> (the
  generators divide by 3, 100, 255, 765, by the count 9 and by a length that is at
  least 1, infinite or NaN).
\<close>

fun jdiv :: "jsnum \<Rightarrow> jsnum \<Rightarrow> jsnum" where
  "jdiv (Fin a) (Fin b) =
     (if b = 0 then (if a = 0 then NaN else if 0 < a then PInf else NInf)
      else round64 (a / b))"
| "jdiv NaN y = NaN"
| "jdiv x NaN = NaN"
| "jdiv (Fin a) y = Fin 0"
| "jdiv x (Fin b) = (if 0 \<le> b then x else jneg x)"
| "jdiv x y = NaN"

text \<open>\<^verbatim>\<open>Math.sqrt\<close>, the square root rounded.\<close>

fun jsqrt :: "jsnum \<Rightarrow> jsnum" where
  "jsqrt (Fin a) = (if a < 0 then NaN else round64 (sqrt a))"
| "jsqrt PInf = PInf"
| "jsqrt NInf = NaN"
| "jsqrt NaN = NaN"

text \<open>The comparison \<^verbatim>\<open><\<close>, false when an operand is NaN.\<close>

fun jlt :: "jsnum \<Rightarrow> jsnum \<Rightarrow> bool" where
  "jlt (Fin a) (Fin b) = (a < b)"
| "jlt NaN y = False"
| "jlt x NaN = False"
| "jlt x NInf = False"
| "jlt PInf y = False"
| "jlt x y = True"

text \<open>\<^verbatim>\<open>Math.max\<close> and \<^verbatim>\<open>Math.min\<close> of two numbers, NaN when an operand is NaN.\<close>

fun jmax :: "jsnum \<Rightarrow> jsnum \<Rightarrow> jsnum" where
  "jmax (Fin a) (Fin b) = Fin (max a b)"
| "jmax NaN y = NaN"
| "jmax x NaN = NaN"
| "jmax PInf y = PInf"
| "jmax x PInf = PInf"
| "jmax NInf y = y"
| "jmax x NInf = x"

fun jmin :: "jsnum \<Rightarrow> jsnum \<Rightarrow> jsnum" where
  "jmin (Fin a) (Fin b) = Fin (min a b)"
| "jmin NaN y = NaN"
| "jmin x NaN = NaN"
| "jmin NInf y = NInf"
| "jmin x NInf = NInf"
| "jmin PInf y = y"
| "jmin x PInf = x"

text \<open>The byte store: NaN is stored as 0, the infinities are clamped.\<close>

fun toUint8Clamp64 :: "jsnum \<Rightarrow> byte" where
  "toUint8Clamp64 (Fin v) = toUint8Clamp v"
| "toUint8Clamp64 PInf = 255"
| "toUint8Clamp64 NInf = 0"
| "toUint8Clamp64 NaN = 0"

section \<open>The loops of the generators in double precision\<close>

text \<open>
  The loop shared by the roughness, ambient-occlusion and height generators, on the
  array \<^verbatim>\<open>data\<close> read from the canvas. The array after the loop is what the generator
  passes to \<^verbatim>\<open>putImageData\<close>.
\<close>

function gray_loop64 :: "(jsnum \<Rightarrow> jsnum) \<Rightarrow> nat \<Rightarrow> byte list \<Rightarrow> byte list" where
  "gray_loop64 f i d =
     (if i < length d then
        (let avg = jdiv (jadd (jadd (jnum (d ! i)) (jnum (d ! (i + 1)))) (jnum (d ! (i + 2))))
                     (lit 3);
             v = toUint8Clamp64 (f avg)
         in gray_loop64 f (i + 4) (d[i + 2 := v, i + 1 := v, i := v]))
      else d)"
  by pat_completeness auto
termination
  by (relation "measure (\<lambda>(f, i, d). length d - i)") auto

declare gray_loop64.simps [simp del]

definition roughness_val64 :: "jsnum \<Rightarrow> jsnum \<Rightarrow> jsnum" where
  "roughness_val64 multiplier avg =
     (let val = jmul (jsub (lit 255) avg) multiplier;
          val = jmul (jadd (jmul (jsub (jdiv val (lit 255)) (lit 0.5)) (lit 1.5)) (lit 0.5))
                  (lit 255)
      in jmin (lit 255) (jmax (lit 0) val))"

definition ao_val64 :: "jsnum \<Rightarrow> jsnum" where
  "ao_val64 avg =
     (if jlt avg (lit 100) then jmul (jdiv avg (lit 100)) (lit 255) else lit 255)"

definition height_val64 :: "jsnum \<Rightarrow> jsnum" where
  "height_val64 avg =
     (let val = jmul (jadd (jmul (jsub (jdiv avg (lit 255)) (lit 0.5)) (lit 1.2)) (lit 0.5))
                  (lit 255)
      in jmin (lit 255) (jmax (lit 0) val))"

definition roughness_loop :: "jsnum \<Rightarrow> byte list \<Rightarrow> byte list" where
  "roughness_loop multiplier d = gray_loop64 (roughness_val64 multiplier) 0 d"

definition ao_loop :: "byte list \<Rightarrow> byte list" where
  "ao_loop d = gray_loop64 ao_val64 0 d"

definition height_loop :: "byte list \<Rightarrow> byte list" where
  "height_loop d = gray_loop64 height_val64 0 d"

text \<open>The normal map generator: \<^verbatim>\<open>getSmoothHeight\<close> and the loops over \<open>y\<close> and \<open>x\<close>.\<close>

definition sample64 :: "image \<Rightarrow> int \<Rightarrow> int \<Rightarrow> jsnum" where
  "sample64 img sx sy =
     (let nx = max 0 (min (int (width img) - 1) sx);
          ny = max 0 (min (int (height img) - 1) sy);
          px = nat ((nx + ny * int (width img)) * 4)
      in jdiv (jadd (jadd (jnum (data img ! px)) (jnum (data img ! (px + 1))))
                 (jnum (data img ! (px + 2))))
           (lit 765))"

definition getSmoothHeight64 :: "image \<Rightarrow> int \<Rightarrow> int \<Rightarrow> jsnum" where
  "getSmoothHeight64 img x y =
     (let (total, count) =
        fold (\<lambda>ox. fold (\<lambda>oy (total, count).
                (jadd total (sample64 img (x + ox) (y + oy)), jadd count (lit 1))) [-1, 0, 1])
             [-1, 0, 1] (lit 0, lit 0)
      in jdiv total count)"

definition normal_pixel64 :: "image \<Rightarrow> jsnum \<Rightarrow> nat \<Rightarrow> nat \<Rightarrow> byte list" where
  "normal_pixel64 img strength x y =
     (let hL = getSmoothHeight64 img (int x - 1) (int y);
          hR = getSmoothHeight64 img (int x + 1) (int y);
          hU = getSmoothHeight64 img (int x) (int y - 1);
          hD = getSmoothHeight64 img (int x) (int y + 1);
          dx = jmul (jsub hL hR) strength;
          dy = jmul (jsub hU hD) strength;
          dz = lit 1.0;
          len = jsqrt (jadd (jadd (jmul dx dx) (jmul dy dy)) (jmul dz dz))
      in [toUint8Clamp64 (jmul (jadd (jmul (jdiv dx len) (lit 0.5)) (lit 0.5)) (lit 255)),
          toUint8Clamp64 (jmul (jadd (jmul (jdiv dy len) (lit 0.5)) (lit 0.5)) (lit 255)),
          toUint8Clamp64 (jmul (jadd (jmul (jdiv dz len) (lit 0.5)) (lit 0.5)) (lit 255)),
          toUint8Clamp64 (lit 255)])"

definition write_pixel64 :: "image \<Rightarrow> jsnum \<Rightarrow> nat \<Rightarrow> nat \<Rightarrow> byte list \<Rightarrow> byte list" where
  "write_pixel64 img strength y x outData =
     (let idx = (y * width img + x) * 4;
          p = normal_pixel64 img strength x y
      in outData[idx := p ! 0, idx + 1 := p ! 1, idx + 2 := p ! 2, idx + 3 := p ! 3])"

definition normal_row64 :: "image \<Rightarrow> jsnum \<Rightarrow> nat \<Rightarrow> byte list \<Rightarrow> byte list" where
  "normal_row64 img strength y outData =
     fold (write_pixel64 img strength y) [0..<width img] outData"

definition normal_loop64 :: "image \<Rightarrow> jsnum \<Rightarrow> byte list \<Rightarrow> byte list" where
  "normal_loop64 img strength outData =
     fold (normal_row64 img strength) [0..<height img] outData"

text \<open>The image data \<^verbatim>\<open>output\<close> after the loops, which the generator puts on the canvas.\<close>

definition normal_output :: "image \<Rightarrow> jsnum \<Rightarrow> image" where
  "normal_output img strength =
     \<lparr>width = width img, height = height img,
      data = normal_loop64 img strength (createImageData (width img) (height img))\<rparr>"

section \<open>Notions used to state the properties\<close>

text \<open>
  Malformed output of the analysis service: text that is absent or cannot be parsed, or
  a value that carries neither a numeric \<^verbatim>\<open>suggestedRoughness\<close> nor a numeric
  \<^verbatim>\<open>suggestedMetalness\<close>.
\<close>

fun numeric_field :: "json \<Rightarrow> string \<Rightarrow> bool" where
  "numeric_field (JObj ps) k = (case map_of ps k of Some (JNum r) \<Rightarrow> True | _ \<Rightarrow> False)"
| "numeric_field v k = False"

fun malformed :: "response_text \<Rightarrow> bool" where
  "malformed (TextJson v) =
     (\<not> numeric_field v ''suggestedRoughness'' \<and> \<not> numeric_field v ''suggestedMetalness'')"
| "malformed txt = True"

text \<open>
  The byte of channel \<open>c\<close> of the pixel in column \<open>x\<close> and row \<open>y\<close>, and the pixel's
  luminance \<open>(R + G + B) / 3 / 255\<close>.
\<close>

definition channel :: "image \<Rightarrow> nat \<Rightarrow> nat \<Rightarrow> nat \<Rightarrow> byte" where
  "channel img x y c = data img ! (4 * (y * width img + x) + c)"

definition luminance :: "image \<Rightarrow> nat \<Rightarrow> nat \<Rightarrow> real" where
  "luminance img x y =
     (num (channel img x y 0) + num (channel img x y 1) + num (channel img x y 2)) / 3 / 255"

text \<open>A coordinate clamped to the valid range \<open>0, \<dots>, n - 1\<close>.\<close>

definition clamp_coord :: "nat \<Rightarrow> int \<Rightarrow> nat" where
  "clamp_coord n v = (if v < 0 then 0 else if int n - 1 < v then n - 1 else nat v)"

text \<open>The smoothed height: the mean luminance over the clamped 3 by 3 neighbourhood.\<close>

definition smoothed_height :: "image \<Rightarrow> int \<Rightarrow> int \<Rightarrow> real" where
  "smoothed_height img x y =
     (\<Sum>ox\<leftarrow>[-1, 0, 1]. \<Sum>oy\<leftarrow>[-1, 0, 1].
        luminance img (clamp_coord (width img) (x + ox)) (clamp_coord (height img) (y + oy))) / 9"


text \<open>The encoding of a component in \<open>[-1, 1]\<close> and the decoding of a stored byte.\<close>

definition encode :: "real \<Rightarrow> real" where
  "encode v = (v * 0.5 + 0.5) * 255"



text \<open>
  The mean of three bytes as a double: the sum of the three is exact, the quotient is
  rounded. \<open>avg_at d k\<close> is the mean of the colour bytes of pixel \<open>k\<close> of the array \<open>d\<close>.
\<close>

definition mean3 :: "byte \<Rightarrow> byte \<Rightarrow> byte \<Rightarrow> jsnum" where
  "mean3 r g b = round64 ((num r + num g + num b) / 3)"

definition avg_at :: "byte list \<Rightarrow> nat \<Rightarrow> jsnum" where
  "avg_at d k = mean3 (d ! (4 * k)) (d ! (4 * k + 1)) (d ! (4 * k + 2))"

text \<open>Clamping to \<open>[0, 255]\<close>; NaN is not a number of the interval and stays NaN.\<close>

fun clamp255 :: "jsnum \<Rightarrow> jsnum" where
  "clamp255 (Fin a) = Fin (if a < 0 then 0 else if 255 < a then 255 else a)"
| "clamp255 PInf = Fin 255"
| "clamp255 NInf = Fin 0"
| "clamp255 NaN = NaN"

text \<open>
  The roughness, height and ambient-occlusion formulas as the specification words
  them, every operation rounded to a double:
  \<open>val = (255 - avg) * multiplier\<close>, then \<open>((val / 255 - 0.5) * 1.5 + 0.5) * 255\<close>, clamped;
  \<open>((avg / 255 - 0.5) * 1.2 + 0.5) * 255\<close>, clamped; and \<open>avg / 100 * 255\<close>.
\<close>

definition roughness_spec :: "jsnum \<Rightarrow> jsnum \<Rightarrow> jsnum" where
  "roughness_spec multiplier avg =
     (let val = jmul (jsub (Fin 255) avg) multiplier
      in clamp255 (jmul (jadd (jmul (jsub (jdiv val (Fin 255)) (Fin 0.5)) (Fin 1.5)) (Fin 0.5))
                     (Fin 255)))"

definition height_spec :: "jsnum \<Rightarrow> jsnum" where
  "height_spec avg =
     clamp255 (jmul (jadd (jmul (jsub (jdiv avg (Fin 255)) (Fin 0.5)) (lit 1.2)) (Fin 0.5))
                 (Fin 255))"

definition ao_spec :: "jsnum \<Rightarrow> jsnum" where
  "ao_spec avg = jmul (jdiv avg (Fin 100)) (Fin 255)"

section \<open>Example inputs\<close>

definition platform_of :: "image \<Rightarrow> api_result \<Rightarrow> platform" where
  "platform_of img r = \<lparr>decode = (\<lambda>src. Some img), context2d = True, generateContent = (\<lambda>url. r)\<rparr>"

definition solid :: "nat \<Rightarrow> nat \<Rightarrow> byte list \<Rightarrow> image" where
  "solid w h p = \<lparr>width = w, height = h, data = concat (replicate (w * h) p)\<rparr>"

definition example_platform :: "image \<Rightarrow> platform" where
  "example_platform img = platform_of img (ApiReturns TextAbsent)"

definition white1 :: image where
  "white1 = solid 1 1 [255, 255, 255, 255]"

definition dark1 :: image where
  "dark1 = solid 1 1 [10, 0, 0, 255]"

text \<open>
  Platforms whose analysis request fails, returns text that cannot be parsed, and
  returns zero for both suggestions.
\<close>

definition failing_platform :: platform where
  "failing_platform = platform_of white1 (ApiThrows (JsError ''fetch failed''))"

definition garbled_platform :: platform where
  "garbled_platform = platform_of white1 (ApiReturns TextUnparseable)"

definition zero_platform :: platform where
  "zero_platform = platform_of white1 (ApiReturns (TextJson (JObj
     [(''suggestedRoughness'', JNum 0), (''suggestedMetalness'', JNum 0)])))"


section \<open>Properties of the byte store and of the grayscale loop\<close>

lemma length_gray_loop: "length (gray_loop f i d) = length d"
proof (induction f i d rule: gray_loop.induct)
  case (1 f i d)
  show ?case
  proof (cases "i < length d")
    case True
    with 1 show ?thesis by (subst gray_loop.simps) (simp add: Let_def)
  next
    case False
    then show ?thesis by (subst gray_loop.simps) simp
  qed
qed

lemma canvas_for_ok:
  "decode P src = Some img \<Longrightarrow> context2d P \<Longrightarrow> canvas_for P src = Inr img"
  by (simp add: canvas_for_def loadImage_def)

lemma uint_byte_of_int: "0 \<le> k \<Longrightarrow> k \<le> 255 \<Longrightarrow> uint (word_of_int k :: byte) = k"
  by (simp add: uint_word_of_int_eq take_bit_int_eq_self)

lemma toUint8Clamp_eq:
  "toUint8Clamp v = word_of_int (round_half_even (min (max v 0) 255))"
  by (auto simp: toUint8Clamp_def round_half_even_def Let_def)

lemma round_half_even_floor:
  "\<lfloor>v\<rfloor> \<le> round_half_even v" "round_half_even v \<le> \<lfloor>v\<rfloor> + 1"
  by (simp_all add: round_half_even_def)

lemma round_half_even_range:
  assumes "0 \<le> v" "v \<le> 255"
  shows "0 \<le> round_half_even v" "round_half_even v \<le> 255"
proof -
  have f0: "0 \<le> \<lfloor>v\<rfloor>" using assms by simp
  have f1: "\<lfloor>v\<rfloor> \<le> 255" using floor_mono[OF assms(2)] by simp
  show "0 \<le> round_half_even v" using f0 round_half_even_floor(1)[of v] by linarith
  show "round_half_even v \<le> 255"
  proof (cases "\<lfloor>v\<rfloor> = 255")
    case True
    then have "255 \<le> v" using floor_le_iff[of v 254] by linarith
    with assms have "v = 255" by simp
    then show ?thesis by (simp add: round_half_even_def)
  next
    case False
    with f1 have "\<lfloor>v\<rfloor> + 1 \<le> 255" by linarith
    with round_half_even_floor(2)[of v] show ?thesis by linarith
  qed
qed

lemma uint_toUint8Clamp:
  assumes "0 \<le> v" "v \<le> 255"
  shows "uint (toUint8Clamp v) = round_half_even v"
proof -
  from assms have m: "min (max v 0) 255 = v" by simp
  show ?thesis
    using round_half_even_range[OF assms] by (simp add: toUint8Clamp_eq m uint_byte_of_int)
qed

lemma num_uint: "num b = real_of_int (uint b)"
  by (simp add: num_def)

lemma round_half_even_near: "\<bar>real_of_int (round_half_even v) - v\<bar> \<le> 1 / 2"
  by (auto simp: round_half_even_def)

lemma round_half_even_round:
  "v - real_of_int \<lfloor>v\<rfloor> \<noteq> 1 / 2 \<Longrightarrow> round_half_even v = round v"
  by (auto simp: round_half_even_def round_def) linarith+


section \<open>Properties of the rounding to doubles\<close>

text \<open>The exponent brackets a positive number between two powers of two.\<close>

lemma ilog2_bounds:
  assumes "0 < x"
  shows "2 powi ilog2 x \<le> x" and "x < 2 powi (ilog2 x + 1)"
proof -
  have "2 powi ilog2 x \<le> x \<and> x < 2 powi (ilog2 x + 1)"
  proof (cases "1 \<le> x")
    case True
    define n where "n = \<lfloor>x\<rfloor>"
    have n: "0 < n" using True by (simp add: n_def)
    have e: "ilog2 x = bitlen n - 1" using True by (simp add: ilog2_def n_def)
    have b1: "1 \<le> bitlen n" using n by (simp add: bitlen_alt_def)
    from bitlen_bounds[OF n] have lo: "2 ^ nat (bitlen n - 1) \<le> n" and hi: "n < 2 ^ nat (bitlen n)"
      by simp_all
    have "real_of_int (2 ^ nat (bitlen n - 1)) \<le> real_of_int n" using lo by linarith
    also have "\<dots> \<le> x" by (simp add: n_def)
    finally have 1: "2 powi (bitlen n - 1) \<le> x"
      using b1 by (simp add: power_int_def)
    have "n + 1 \<le> 2 ^ nat (bitlen n)" using hi by simp
    then have "real_of_int (n + 1) \<le> real_of_int (2 ^ nat (bitlen n))" by linarith
    moreover have "x < real_of_int (n + 1)" by (simp add: n_def)
    ultimately have 2: "x < 2 powi (bitlen n - 1 + 1)"
      using b1 by (simp add: power_int_def)
    show ?thesis using 1 2 e by simp
  next
    case False
    define m where "m = \<lceil>1 / x\<rceil>"
    define k where "k = bitlen (m - 1)"
    have x1: "x < 1" using False by simp
    then have "1 < 1 / x" using assms by simp
    then have m: "2 \<le> m" unfolding m_def by linarith
    have e: "ilog2 x = - k" using False by (simp add: ilog2_def m_def k_def)
    have m1: "0 < m - 1" using m by simp
    then have k1: "1 \<le> k" by (simp add: k_def bitlen_alt_def)
    from bitlen_bounds[OF m1] have lo: "2 ^ nat (k - 1) \<le> m - 1" and hi: "m - 1 < 2 ^ nat k"
      by (simp_all add: k_def)
    have "1 / x \<le> real_of_int m" by (simp add: m_def)
    also have "real_of_int m \<le> real_of_int (2 ^ nat k)" using hi by linarith
    finally have "1 / x \<le> 2 ^ nat k" by simp
    then have "1 \<le> 2 ^ nat k * x" using assms by (simp add: field_simps)
    then have "1 / 2 ^ nat k \<le> x" by (simp add: field_simps)
    then have 1: "2 powi (- k) \<le> x"
      using k1 by (simp add: power_int_def field_simps)
    have "real_of_int (2 ^ nat (k - 1)) \<le> real_of_int (m - 1)" using lo by linarith
    moreover have "real_of_int (m - 1) < 1 / x" unfolding m_def by linarith
    ultimately have "2 ^ nat (k - 1) < 1 / x" by simp
    then have "2 ^ nat (k - 1) * x < 1" using assms by (simp add: field_simps)
    then have "x < 1 / 2 ^ nat (k - 1)" by (simp add: field_simps)
    then have 2: "x < 2 powi (- k + 1)"
      using k1 by (cases "k = 1") (simp_all add: power_int_def field_simps)
    show ?thesis using 1 2 e by simp
  qed
  then show "2 powi ilog2 x \<le> x" and "x < 2 powi (ilog2 x + 1)" by simp_all
qed

lemma pow2_less_imp_less:
  assumes "(2::real) powi a < 2 powi b"
  shows "a < b"
proof (rule ccontr)
  assume "\<not> a < b"
  then have "b \<le> a" by simp
  then have "(2::real) powi b \<le> 2 powi a" by (intro power_int_increasing) simp_all
  with assms show False by linarith
qed

lemma ilog2_unique:
  assumes "2 powi e \<le> x" "x < 2 powi (e + 1)"
  shows "ilog2 x = e"
proof -
  have x: "0 < x" using assms(1) zero_less_power_int[of "2::real" e] by linarith
  note b = ilog2_bounds[OF x]
  have "(2::real) powi e < 2 powi (ilog2 x + 1)" using assms(1) b(2) by linarith
  then have 1: "e < ilog2 x + 1" by (rule pow2_less_imp_less)
  have "(2::real) powi ilog2 x < 2 powi (e + 1)" using assms(2) b(1) by linarith
  then have 2: "ilog2 x < e + 1" by (rule pow2_less_imp_less)
  from 1 2 show ?thesis by simp
qed

lemma ilog2_less:
  assumes "0 < x" "x < 2 powi k"
  shows "ilog2 x < k"
proof -
  have "(2::real) powi ilog2 x < 2 powi k" using ilog2_bounds(1)[OF assms(1)] assms(2) by linarith
  then show ?thesis by (rule pow2_less_imp_less)
qed

lemma fl_eval:
  assumes "2 powi e \<le> \<bar>x\<bar>" "\<bar>x\<bar> < 2 powi (e + 1)" "- 1022 \<le> e"
  shows "fl x = real_of_int (round_half_even (x / 2 powi (e - 52))) * 2 powi (e - 52)"
proof -
  have "0 < \<bar>x\<bar>" using assms(1) zero_less_power_int[of "2::real" e] by linarith
  then have "x \<noteq> 0" by simp
  moreover have "ulp_exp x = e - 52"
    using ilog2_unique[OF assms(1,2)] assms(3) by (simp add: ulp_exp_def)
  ultimately show ?thesis by (simp add: fl_def)
qed

lemma round64_Fin:
  assumes "fl x = y" "\<bar>y\<bar> < 2 powi 1024"
  shows "round64 x = Fin y"
proof (cases "y = 0")
  case True
  with assms(1) show ?thesis by (simp add: round64_def)
next
  case False
  then have "ilog2 \<bar>y\<bar> < 1024" using assms(2) by (intro ilog2_less) simp_all
  with assms(1) show ?thesis by (simp add: round64_def Let_def)
qed

lemma round_half_even_of_int: "round_half_even (real_of_int n) = n"
  by (simp add: round_half_even_def)

lemma round_half_even_le_int:
  assumes "v \<le> real_of_int M"
  shows "round_half_even v \<le> M"
proof -
  have f: "\<lfloor>v\<rfloor> \<le> M" using assms by (simp add: floor_le_iff)
  show ?thesis
  proof (cases "v - real_of_int \<lfloor>v\<rfloor> < 1 / 2")
    case True
    then show ?thesis using f by (simp add: round_half_even_def)
  next
    case False
    then have "real_of_int \<lfloor>v\<rfloor> < v" by linarith
    with assms have "real_of_int \<lfloor>v\<rfloor> < real_of_int M" by linarith
    then have "\<lfloor>v\<rfloor> + 1 \<le> M" by linarith
    then show ?thesis using f by (simp add: round_half_even_def)
  qed
qed

lemma round_half_even_ge_int:
  assumes "real_of_int M \<le> v"
  shows "M \<le> round_half_even v"
proof -
  have "M \<le> \<lfloor>v\<rfloor>" using assms by (simp add: le_floor_iff)
  then show ?thesis by (simp add: round_half_even_def)
qed

text \<open>The spacing of the doubles around a number is a positive power of two.\<close>

lemma fl_error: "\<bar>fl x - x\<bar> \<le> 2 powi ulp_exp x / 2"
proof (cases "x = 0")
  case True
  then show ?thesis by (simp add: fl_def)
next
  case False
  let ?u = "(2::real) powi ulp_exp x"
  have u: "0 < ?u" by simp
  have "fl x - x = (real_of_int (round_half_even (x / ?u)) - x / ?u) * ?u"
    using False u by (simp add: fl_def field_simps)
  then have "\<bar>fl x - x\<bar> = \<bar>real_of_int (round_half_even (x / ?u)) - x / ?u\<bar> * ?u"
    using u by (simp add: abs_mult)
  also have "\<dots> \<le> 1 / 2 * ?u"
    using round_half_even_near[of "x / ?u"] u by (intro mult_right_mono) simp_all
  finally show ?thesis by simp
qed

lemma ulp_exp_le:
  assumes "x \<noteq> 0" "\<bar>x\<bar> < 2 powi k" "- 1021 \<le> k"
  shows "ulp_exp x \<le> k - 53"
proof -
  have "ilog2 \<bar>x\<bar> < k" using assms(1,2) by (intro ilog2_less) simp_all
  with assms(3) show ?thesis by (simp add: ulp_exp_def)
qed

lemma fl_error_bound:
  assumes "\<bar>x\<bar> < 2 powi k" "- 1021 \<le> k"
  shows "\<bar>fl x - x\<bar> \<le> 2 powi (k - 54)"
proof (cases "x = 0")
  case True
  then show ?thesis by (simp add: fl_def)
next
  case False
  have "(2::real) powi ulp_exp x \<le> 2 powi (k - 53)"
    using ulp_exp_le[OF False assms] by (intro power_int_increasing) simp_all
  moreover have "(2::real) powi (k - 53) / 2 = 2 powi (k - 54)"
    using power_int_add[of "2::real" "k - 54" 1] by simp
  ultimately show ?thesis using fl_error[of x] by simp
qed

text \<open>Below \<open>2 ^ 53\<close> the spacing is at most 1, so the integers are doubles.\<close>

lemma ulp_grid:
  assumes "x \<noteq> 0" "\<bar>x\<bar> < 2 ^ 53"
  shows "\<exists>j. (2::real) powi ulp_exp x = 1 / 2 ^ j"
proof -
  have "\<bar>x\<bar> < 2 powi 53" using assms(2) by simp
  from ulp_exp_le[OF assms(1) this] have "ulp_exp x \<le> 0" by simp
  then have "(2::real) powi ulp_exp x = 1 / 2 ^ nat (- ulp_exp x)"
    by (cases "ulp_exp x = 0") (simp_all add: power_int_def field_simps)
  then show ?thesis ..
qed

lemma fl_int:
  assumes "\<bar>real_of_int m\<bar> < 2 ^ 53"
  shows "fl (real_of_int m) = real_of_int m"
proof (cases "m = 0")
  case True
  then show ?thesis by (simp add: fl_def)
next
  case False
  then have nz: "real_of_int m \<noteq> 0" by simp
  from ulp_grid[OF nz assms] obtain j where j: "(2::real) powi ulp_exp (real_of_int m) = 1 / 2 ^ j" ..
  have "round_half_even (real_of_int m / (1 / 2 ^ j)) = m * 2 ^ j"
    using round_half_even_of_int[of "m * 2 ^ j"] by simp
  then show ?thesis using nz by (simp add: fl_def j)
qed

lemma fl_le_int:
  assumes "x \<le> real_of_int m" "\<bar>x\<bar> < 2 ^ 53"
  shows "fl x \<le> real_of_int m"
proof (cases "x = 0")
  case True
  with assms(1) show ?thesis by (simp add: fl_def)
next
  case False
  from ulp_grid[OF False assms(2)] obtain j where j: "(2::real) powi ulp_exp x = 1 / 2 ^ j" ..
  have "x / (1 / 2 ^ j) \<le> real_of_int (m * 2 ^ j)" using assms(1) by simp
  then have "round_half_even (x / (1 / 2 ^ j)) \<le> m * 2 ^ j" by (rule round_half_even_le_int)
  then have "real_of_int (round_half_even (x / (1 / 2 ^ j))) \<le> real_of_int (m * 2 ^ j)"
    by linarith
  then show ?thesis using False by (simp add: fl_def j field_simps)
qed

lemma fl_ge_int:
  assumes "real_of_int m \<le> x" "\<bar>x\<bar> < 2 ^ 53"
  shows "real_of_int m \<le> fl x"
proof (cases "x = 0")
  case True
  with assms(1) show ?thesis by (simp add: fl_def)
next
  case False
  from ulp_grid[OF False assms(2)] obtain j where j: "(2::real) powi ulp_exp x = 1 / 2 ^ j" ..
  have "real_of_int (m * 2 ^ j) \<le> x / (1 / 2 ^ j)" using assms(1) by simp
  then have "m * 2 ^ j \<le> round_half_even (x / (1 / 2 ^ j))" by (rule round_half_even_ge_int)
  then have "real_of_int (m * 2 ^ j) \<le> real_of_int (round_half_even (x / (1 / 2 ^ j)))"
    by linarith
  then show ?thesis using False by (simp add: fl_def j field_simps)
qed

text \<open>A rounded number of moderate size is finite.\<close>

lemma round64_small:
  assumes "\<bar>fl x\<bar> \<le> 2 ^ 53"
  shows "round64 x = Fin (fl x)"
proof (rule round64_Fin[OF refl])
  have "(2::real) ^ 53 < 2 powi 1024"
    using power_int_strict_increasing[of 53 1024 "2::real"] by simp
  with assms show "\<bar>fl x\<bar> < 2 powi 1024" by linarith
qed

lemma round64_range:
  assumes "real_of_int a \<le> x" "x \<le> real_of_int b" "- (2 ^ 53) < a" "b < 2 ^ 53"
  shows "\<exists>y. round64 x = Fin y \<and> y = fl x \<and> real_of_int a \<le> y \<and> y \<le> real_of_int b"
proof -
  have ab: "- (2 ^ 53) < real_of_int a" "real_of_int b < 2 ^ 53"
    using assms(3,4) by (simp_all flip: of_int_less_iff)
  then have x: "\<bar>x\<bar> < 2 ^ 53" using assms(1,2) by linarith
  have lo: "real_of_int a \<le> fl x" using assms(1) x by (rule fl_ge_int)
  have hi: "fl x \<le> real_of_int b" using assms(2) x by (rule fl_le_int)
  have "\<bar>fl x\<bar> \<le> 2 ^ 53" using lo hi ab by linarith
  then show ?thesis using lo hi by (simp add: round64_small)
qed

lemma lit_int:
  assumes "\<bar>real_of_int m\<bar> < 2 ^ 53"
  shows "lit (real_of_int m) = Fin (real_of_int m)"
  using assms by (simp add: lit_def round64_small fl_int)

section \<open>Auxiliary facts\<close>

lemma num_nonneg: "0 \<le> num b"
  unfolding num_def by (rule of_nat_0_le_iff)

lemma toUint8Clamp_255: "toUint8Clamp 255 = 255"
  by (simp add: toUint8Clamp_def)

lemma example_platform_simps:
  "decode (example_platform img) src = Some img" "context2d (example_platform img)"
  by (simp_all add: example_platform_def platform_of_def)

lemma wf_solid1: "wf_image (solid 1 1 [r, g, b, a])"
  by (simp add: wf_image_def solid_def)

section \<open>The grayscale loops in double precision\<close>

text \<open>Integers and the literals of the generators as doubles.\<close>

lemma round64_int:
  assumes "\<bar>real_of_int m\<bar> < 2 ^ 53"
  shows "round64 (real_of_int m) = Fin (real_of_int m)"
  using assms by (simp add: round64_small fl_int)

lemma num_le_255: "num b \<le> 255"
proof -
  have "uint b < 256" using uint_bounded[of b] by simp
  then have "real_of_int (uint b) \<le> 255" by linarith
  then show ?thesis by (simp only: num_uint)
qed

lemma lit_simps [simp]:
  "lit 0 = Fin 0" "lit 1 = Fin 1" "lit 3 = Fin 3" "lit 9 = Fin 9" "lit 100 = Fin 100"
  "lit 255 = Fin 255" "lit 765 = Fin 765"
  using lit_int[of 0] lit_int[of 1] lit_int[of 3] lit_int[of 9] lit_int[of 100]
    lit_int[of 255] lit_int[of 765]
  by simp_all

lemma round64_eval:
  assumes "2 powi e \<le> \<bar>x\<bar>" "\<bar>x\<bar> < 2 powi (e + 1)" "- 1022 \<le> e"
    and "real_of_int (round_half_even (x / 2 powi (e - 52))) * 2 powi (e - 52) = y"
    and "\<bar>y\<bar> < 2 powi 1024"
  shows "round64 x = Fin y"
  using fl_eval[OF assms(1-3)] assms(4,5) by (intro round64_Fin) simp_all

lemma lit_half [simp]: "lit (1 / 2) = Fin (1 / 2)" "lit (3 / 2) = Fin (3 / 2)"
  unfolding lit_def
  by (rule round64_eval[where e = "-1"], simp_all add: round_half_even_def)
     (rule round64_eval[where e = 0], simp_all add: round_half_even_def)

lemma round64_nat:
  assumes "n < 2 ^ 53"
  shows "round64 (real n) = Fin (real n)"
proof -
  have "real n < 2 ^ 53" using assms by (simp flip: of_nat_less_iff)
  then have "\<bar>real_of_int (int n)\<bar> < 2 ^ 53" by simp
  from round64_int[OF this] show ?thesis by simp
qed

lemma round64_numeral [simp]:
  "numeral w < (2::nat) ^ 53 \<Longrightarrow> round64 (numeral w) = Fin (numeral w)"
  "round64 0 = Fin 0" "round64 1 = Fin 1"
  using round64_nat[of "numeral w"] round64_nat[of 0] round64_nat[of 1] by simp_all

lemma sum3_exact:
  "jadd (jadd (jnum r) (jnum g)) (jnum b) = Fin (num r + num g + num b)"
proof -
  have b: "unat r < 256" "unat g < 256" "unat b < 256"
    using unsigned_less[of r, where 'a = nat] unsigned_less[of g, where 'a = nat]
      unsigned_less[of b, where 'a = nat] by simp_all
  have s1: "round64 (real (unat r + unat g)) = Fin (real (unat r + unat g))"
    using b by (intro round64_nat) simp
  have s2: "round64 (real (unat r + unat g + unat b)) = Fin (real (unat r + unat g + unat b))"
    using b by (intro round64_nat) simp
  show ?thesis using s1 s2 by (simp add: jnum_def num_def)
qed

lemma avg_mean3:
  "jdiv (jadd (jadd (jnum r) (jnum g)) (jnum b)) (Fin 3) = mean3 r g b"
  by (simp add: sum3_exact mean3_def)


text \<open>The loop, pixel by pixel: pixel \<open>k\<close> is rewritten from its own bytes only.\<close>

lemma gray_loop64_nth:
  "i = 4 * m \<Longrightarrow> length d = 4 * n \<Longrightarrow> k < n \<Longrightarrow> c < 4 \<Longrightarrow>
   gray_loop64 f i d ! (4 * k + c) =
     (if k < m \<or> c = 3 then d ! (4 * k + c) else toUint8Clamp64 (f (avg_at d k)))"
proof (induction f i d arbitrary: m rule: gray_loop64.induct)
  case (1 f i d)
  show ?case
  proof (cases "i < length d")
    case False
    with 1(2-) have "k < m" by simp
    with False show ?thesis by (subst gray_loop64.simps) simp
  next
    case True
    define v where "v = toUint8Clamp64 (f (avg_at d m))"
    define d' where "d' = d[i + 2 := v, i + 1 := v, i := v]"
    have step: "gray_loop64 f i d = gray_loop64 f (i + 4) d'"
      using True 1(2)
      by (subst gray_loop64.simps) (simp add: Let_def d'_def v_def avg_at_def avg_mean3)
    have len: "length d' = 4 * n" using 1(3) by (simp add: d'_def)
    have IH: "gray_loop64 f (i + 4) d' ! (4 * k + c) =
        (if k < Suc m \<or> c = 3 then d' ! (4 * k + c) else toUint8Clamp64 (f (avg_at d' k)))"
      using "1.IH"[OF True refl refl, of "Suc m"] True 1(2) len 1(4,5)
      by (simp add: Let_def d'_def v_def avg_at_def avg_mean3)
    have old: "d' ! j = d ! j" if "j < i \<or> i + 3 \<le> j" for j
      using that by (auto simp: d'_def)
    have new: "d' ! (i + c) = v" if "c < 3"
      using that True 1(2,3) by (auto simp: d'_def nth_list_update)
    show ?thesis
    proof (cases "k < m")
      case True
      then show ?thesis using step IH old[of "4 * k + c"] 1(2,5) by simp
    next
      case False
      show ?thesis
      proof (cases "k = m")
        case True
        then show ?thesis using step IH new old[of "4 * k + c"] 1(2,5)
          by (cases "c = 3") (auto simp: v_def)
      next
        case False
        with \<open>\<not> k < m\<close> have km: "m < k" by simp
        then have "avg_at d' k = avg_at d k"
          using 1(2) by (simp add: avg_at_def old)
        moreover have "d' ! (4 * k + c) = d ! (4 * k + c)"
          using km 1(2) by (intro old) simp
        ultimately show ?thesis using step IH km by auto
      qed
    qed
  qed
qed

lemma gray_loop64_pixel:
  assumes "length d = 4 * n" "k < n"
  shows "gray_loop64 f 0 d ! (4 * k) = toUint8Clamp64 (f (avg_at d k))"
    and "gray_loop64 f 0 d ! (4 * k + 1) = toUint8Clamp64 (f (avg_at d k))"
    and "gray_loop64 f 0 d ! (4 * k + 2) = toUint8Clamp64 (f (avg_at d k))"
    and "gray_loop64 f 0 d ! (4 * k + 3) = d ! (4 * k + 3)"
  using gray_loop64_nth[of 0 0 d n k 0 f] gray_loop64_nth[of 0 0 d n k 1 f]
    gray_loop64_nth[of 0 0 d n k 2 f] gray_loop64_nth[of 0 0 d n k 3 f] assms
  by simp_all

lemma clamp255_eq: "jmin (Fin 255) (jmax (Fin 0) v) = clamp255 v"
  by (cases v) auto

lemma roughness_val64_spec: "roughness_val64 multiplier avg = roughness_spec multiplier avg"
  by (simp add: roughness_val64_def roughness_spec_def Let_def clamp255_eq)

lemma height_val64_spec: "height_val64 avg = height_spec avg"
  by (simp add: height_val64_def height_spec_def Let_def clamp255_eq)

lemma round64_not_NaN [simp]: "round64 x \<noteq> NaN"
  by (simp add: round64_def Let_def)

lemma jadd_not_NaN: "x \<noteq> NaN \<Longrightarrow> jadd x (Fin b) \<noteq> NaN"
  by (cases x) simp_all

lemma jsub_not_NaN: "x \<noteq> NaN \<Longrightarrow> jsub x (Fin b) \<noteq> NaN"
  by (cases x) (simp_all add: jsub_def)

lemma jmul_not_NaN: "x \<noteq> NaN \<Longrightarrow> b \<noteq> 0 \<Longrightarrow> jmul x (Fin b) \<noteq> NaN"
  by (cases x) simp_all

lemma jdiv_not_NaN: "x \<noteq> NaN \<Longrightarrow> 0 < b \<Longrightarrow> jdiv x (Fin b) \<noteq> NaN"
  by (cases x) simp_all

lemma clamp255_range:
  assumes "x \<noteq> NaN"
  shows "\<exists>v. clamp255 x = Fin v \<and> 0 \<le> v \<and> v \<le> 255"
  using assms by (cases x) simp_all

lemma mean3_range: "\<exists>a. mean3 r g b = Fin a \<and> a = fl ((num r + num g + num b) / 3) \<and> 0 \<le> a \<and> a \<le> 255"
proof -
  have "real_of_int 0 \<le> (num r + num g + num b) / 3"
    using num_nonneg[of r] num_nonneg[of g] num_nonneg[of b] by simp
  moreover have "(num r + num g + num b) / 3 \<le> real_of_int 255"
    using num_le_255[of r] num_le_255[of g] num_le_255[of b] by simp
  ultimately show ?thesis
    unfolding mean3_def using round64_range[of 0 _ 255] by simp
qed

lemma uint_toUint8Clamp64:
  assumes "0 \<le> v" "v \<le> 255"
  shows "uint (toUint8Clamp64 (Fin v)) = round_half_even v"
  using assms by (simp add: uint_toUint8Clamp)

lemma roughness_spec_finite:
  "\<exists>v. roughness_spec (Fin m) (mean3 r g b) = Fin v \<and> 0 \<le> v \<and> v \<le> 255"
proof -
  obtain a where a: "mean3 r g b = Fin a" "0 \<le> a" "a \<le> 255" using mean3_range by blast
  have "real_of_int 0 \<le> 255 - a" "255 - a \<le> real_of_int 255" using a by simp_all
  from round64_range[OF this] obtain t where t: "round64 (255 - a) = Fin t" by auto
  define x where "x = jmul (jsub (Fin 255) (Fin a)) (Fin m)"
  have "x \<noteq> NaN"
    by (simp add: x_def jsub_def t)
  then have "jmul (jadd (jmul (jsub (jdiv x (Fin 255)) (Fin (1 / 2))) (Fin (3 / 2)))
      (Fin (1 / 2))) (Fin 255) \<noteq> NaN"
    by (intro jmul_not_NaN jadd_not_NaN jsub_not_NaN jdiv_not_NaN) simp_all
  from clamp255_range[OF this] show ?thesis
    by (simp add: roughness_spec_def a x_def)
qed

lemma lit_12: "lit (6 / 5) = Fin (5404319552844595 / 4503599627370496)"
  unfolding lit_def
  by (rule round64_eval[where e = 0]) (simp_all add: round_half_even_def)

lemma height_spec_finite:
  "\<exists>v. height_spec (mean3 r g b) = Fin v \<and> 0 \<le> v \<and> v \<le> 255"
proof -
  obtain a where a: "mean3 r g b = Fin a" using mean3_range by blast
  have "jmul (jadd (jmul (jsub (jdiv (Fin a) (Fin 255)) (Fin (1 / 2)))
      (Fin (5404319552844595 / 4503599627370496))) (Fin (1 / 2))) (Fin 255) \<noteq> NaN"
    by (intro jmul_not_NaN jadd_not_NaN jsub_not_NaN jdiv_not_NaN) simp_all
  from clamp255_range[OF this] show ?thesis
    by (simp add: height_spec_def a lit_12)
qed

text \<open>
  Claim C5. For every pixel \<open>k\<close> of the array read from the canvas and every multiplier,
  the loop of the roughness generator leaves in the R, G and B bytes of the pixel one
  and the same value: with \<open>avg\<close> the mean of the pixel's R, G, B, it is
  \<open>((((255 - avg) * multiplier) / 255 - 0.5) * 1.5 + 0.5) * 255\<close>, computed in double
  precision and clamped to \<open>[0, 255]\<close>, as the byte store keeps it. The alpha byte is
  not changed. For a finite multiplier the clamped value is a number between 0 and
  255 and the byte is the nearest integer, an exact half going to the even neighbour.
  (For an infinite multiplier and a white pixel the value is NaN, stored as 0.)
\<close>

theorem roughness_per_pixel:
  assumes "length d = 4 * n" and "k < n"
  shows "roughness_loop multiplier d ! (4 * k) =
           toUint8Clamp64 (roughness_spec multiplier (avg_at d k)) \<and>
         roughness_loop multiplier d ! (4 * k + 1) =
           toUint8Clamp64 (roughness_spec multiplier (avg_at d k)) \<and>
         roughness_loop multiplier d ! (4 * k + 2) =
           toUint8Clamp64 (roughness_spec multiplier (avg_at d k)) \<and>
         roughness_loop multiplier d ! (4 * k + 3) = d ! (4 * k + 3) \<and>
         (\<forall>m. multiplier = Fin m \<longrightarrow>
            (\<exists>v. roughness_spec multiplier (avg_at d k) = Fin v \<and> 0 \<le> v \<and> v \<le> 255 \<and>
                 uint (roughness_loop multiplier d ! (4 * k)) = round_half_even v))"
proof -
  note px = gray_loop64_pixel[OF assms, of "roughness_val64 multiplier",
      folded roughness_loop_def, unfolded roughness_val64_spec]
  have "\<exists>v. roughness_spec multiplier (avg_at d k) = Fin v \<and> 0 \<le> v \<and> v \<le> 255 \<and>
      uint (roughness_loop multiplier d ! (4 * k)) = round_half_even v"
    if m: "multiplier = Fin m" for m
  proof -
    obtain v where v: "roughness_spec multiplier (avg_at d k) = Fin v" "0 \<le> v" "v \<le> 255"
      using roughness_spec_finite[of m "d ! (4 * k)" "d ! (4 * k + 1)" "d ! (4 * k + 2)"]
      unfolding m avg_at_def by blast
    show ?thesis using v px(1) by (simp add: uint_toUint8Clamp)
  qed
  with px show ?thesis by blast
qed

text \<open>
  The pixel \<open>(16, 0, 0)\<close> with multiplier 0.5: the value is a little below 123.5 (in
  exact arithmetic it would be 123.5) and the byte is 123; alpha stays 77.
\<close>

theorem roughness_per_pixel_witness:
  "length [16, 0, 0, 77 :: byte] = 4 * 1 \<and> (0::nat) < 1 \<and>
   roughness_spec (lit 0.5) (avg_at [16, 0, 0, 77] 0) = Fin (8690539905941503 / 70368744177664) \<and>
   roughness_loop (lit 0.5) [16, 0, 0, 77] ! 0 = 123 \<and>
   roughness_loop (lit 0.5) [16, 0, 0, 77] ! 1 = 123 \<and>
   roughness_loop (lit 0.5) [16, 0, 0, 77] ! 2 = 123 \<and>
   roughness_loop (lit 0.5) [16, 0, 0, 77] ! 3 = 77"
proof -
  have s1: "round64 (16 / 3) = Fin (6004799503160661 / 1125899906842624)"
    by (rule round64_eval[where e = "2"]) (simp_all add: round_half_even_def)
  have s2: "round64 (281099676741708459 / 1125899906842624) = Fin (8784364898178389 / 35184372088832)"
    by (rule round64_eval[where e = "7"]) (simp_all add: round_half_even_def)
  have s3: "round64 (8784364898178389 / 70368744177664) = Fin (8784364898178389 / 70368744177664)"
    by (rule round64_eval[where e = "6"]) (simp_all add: round_half_even_def)
  have s4: "round64 (8784364898178389 / 17944029765304320) = Fin (8818813387975167 / 18014398509481984)"
    by (rule round64_eval[where e = "-2"]) (simp_all add: round_half_even_def)
  have s5: "round64 (- (188385866765825 / 18014398509481984)) = Fin (- (188385866765825 / 18014398509481984))"
    by (rule round64_eval[where e = "-7"]) (simp_all add: round_half_even_def)
  have s6: "round64 (- (565157600297475 / 36028797018963968)) = Fin (- (565157600297475 / 36028797018963968))"
    by (rule round64_eval[where e = "-6"]) (simp_all add: round_half_even_def)
  have s7: "round64 (17449240909184509 / 36028797018963968) = Fin (4362310227296127 / 9007199254740992)"
    by (rule round64_eval[where e = "-2"]) (simp_all add: round_half_even_def)
  have s8: "round64 (1112389107960512385 / 9007199254740992) = Fin (8690539905941503 / 70368744177664)"
    by (rule round64_eval[where e = "6"]) (simp_all add: round_half_even_def)
  have v: "roughness_spec (lit 0.5) (avg_at [16, 0, 0, 77] 0) = Fin (8690539905941503 / 70368744177664)"
    by (simp add: roughness_spec_def avg_at_def mean3_def num_def jsub_def s1 s2 s3 s4 s5 s6 s7 s8)
  have b: "toUint8Clamp (8690539905941503 / 70368744177664) = 123"
    by (simp add: toUint8Clamp_def)
  show ?thesis
    using roughness_per_pixel[of "[16, 0, 0, 77]" 1 0 "lit 0.5"]
    unfolding v by (simp add: b numeral_2_eq_2 numeral_3_eq_3)
qed

text \<open>
  Claim C6. For every pixel \<open>k\<close> of the array read from the canvas, the loop of the
  height generator leaves in the R, G and B bytes of the pixel one and the same value:
  with \<open>avg\<close> the mean of the pixel's R, G, B, it is
  \<open>((avg / 255 - 0.5) * 1.2 + 0.5) * 255\<close>, computed in double precision and clamped to
  \<open>[0, 255]\<close>, as the byte store keeps it: the nearest integer, an exact half going to
  the even neighbour.
\<close>

theorem height_per_pixel:
  assumes "length d = 4 * n" and "k < n"
  shows "\<exists>v. height_spec (avg_at d k) = Fin v \<and> 0 \<le> v \<and> v \<le> 255 \<and>
           uint (height_loop d ! (4 * k)) = round_half_even v \<and>
           height_loop d ! (4 * k + 1) = height_loop d ! (4 * k) \<and>
           height_loop d ! (4 * k + 2) = height_loop d ! (4 * k)"
proof -
  note px = gray_loop64_pixel[OF assms, of height_val64,
      folded height_loop_def, unfolded height_val64_spec]
  obtain v where v: "height_spec (avg_at d k) = Fin v" "0 \<le> v" "v \<le> 255"
    using height_spec_finite unfolding avg_at_def by blast
  show ?thesis using v px by (simp add: uint_toUint8Clamp)
qed


text \<open>
  The pixel \<open>(65, 0, 0)\<close>: the value is a little above 0.5 (in exact arithmetic it would
  be 0.5) and the byte is 1.
\<close>

theorem height_per_pixel_witness:
  "length [65, 0, 0, 255 :: byte] = 4 * 1 \<and> (0::nat) < 1 \<and>
   height_spec (avg_at [65, 0, 0, 255] 0) = Fin (281474976710663 / 562949953421312) \<and>
   uint (height_loop [65, 0, 0, 255] ! 0) = 1 \<and>
   height_loop [65, 0, 0, 255] ! 1 = height_loop [65, 0, 0, 255] ! 0 \<and>
   height_loop [65, 0, 0, 255] ! 2 = height_loop [65, 0, 0, 255] ! 0"
proof -
  have s1: "round64 (65 / 3) = Fin (6098624495397547 / 281474976710656)"
    by (rule round64_eval[where e = "4"]) (simp_all add: round_half_even_def)
  have s2: "round64 (6 / 5) = Fin (5404319552844595 / 4503599627370496)"
    by (rule round64_eval[where e = "0"]) (simp_all add: round_half_even_def)
  have s3: "round64 (6098624495397547 / 71776119061217280) = Fin (3061270334944651 / 36028797018963968)"
    by (rule round64_eval[where e = "-4"]) (simp_all add: round_half_even_def)
  have s4: "round64 (- (14953128174537333 / 36028797018963968)) = Fin (- (3738282043634333 / 9007199254740992))"
    by (rule round64_eval[where e = "-2"]) (simp_all add: round_half_even_def)
  have s5: "round64 (- (20202870742460877293022155480135 / 40564819207303340847894502572032)) = Fin (- (8971876904722399 / 18014398509481984))"
    by (rule round64_eval[where e = "-2"]) (simp_all add: round_half_even_def)
  have s6: "round64 (35322350018593 / 18014398509481984) = Fin (35322350018593 / 18014398509481984)"
    by (rule round64_eval[where e = "-9"]) (simp_all add: round_half_even_def)
  have s7: "round64 (9007199254741215 / 18014398509481984) = Fin (281474976710663 / 562949953421312)"
    by (rule round64_eval[where e = "-1"]) (simp_all add: round_half_even_def)
  have v: "height_spec (avg_at [65, 0, 0, 255] 0) = Fin (281474976710663 / 562949953421312)"
    by (simp add: height_spec_def avg_at_def mean3_def num_def jsub_def lit_def s1 s2 s3 s4 s5 s6 s7)
  have b: "round_half_even (281474976710663 / 562949953421312) = 1"
    by (simp add: round_half_even_def)
  have p: "length [65, 0, 0, 255 :: byte] = 4 * 1" "(0::nat) < 1" by simp_all
  from height_per_pixel[OF p] obtain w
    where w: "height_spec (avg_at [65, 0, 0, 255] 0) = Fin w"
      "uint (height_loop [65, 0, 0, 255] ! (4 * 0)) = round_half_even w"
      "height_loop [65, 0, 0, 255] ! (4 * 0 + 1) = height_loop [65, 0, 0, 255] ! (4 * 0)"
      "height_loop [65, 0, 0, 255] ! (4 * 0 + 2) = height_loop [65, 0, 0, 255] ! (4 * 0)"
    by blast
  from w(1) have "w = 281474976710663 / 562949953421312" unfolding v by simp
  with w(2-) b show ?thesis by (simp add: v numeral_2_eq_2)
qed

lemma ao_spec_range:
  assumes "0 \<le> a" "a < 100"
  shows "\<exists>v. ao_spec (Fin a) = Fin v \<and> 0 \<le> v \<and> v \<le> 255"
proof -
  have "real_of_int 0 \<le> a / 100" "a / 100 \<le> real_of_int 1" using assms by simp_all
  from round64_range[OF this] obtain q where q: "round64 (a / 100) = Fin q" "0 \<le> q" "q \<le> 1"
    by auto
  have "real_of_int 0 \<le> q * 255" "q * 255 \<le> real_of_int 255" using q by simp_all
  from round64_range[OF this] obtain v where "round64 (q * 255) = Fin v" "0 \<le> v" "v \<le> 255"
    by auto
  then show ?thesis by (simp add: ao_spec_def q)
qed

text \<open>
  Claim C2, amended. For every pixel \<open>k\<close> of the array read from the canvas, with \<open>avg\<close>
  the mean of its R, G, B as a double, the loop of the ambient-occlusion generator
  leaves 255 in R, G and B when \<open>avg \<ge> 100\<close>; when \<open>avg < 100\<close> it leaves in R, G and
  B the number \<open>avg / 100 * 255\<close>, computed in double precision, rounded to the nearest
  integer, an exact half going to the even neighbour. That is \<open>round\<close> of the number
  unless the number lies exactly halfway between two integers.
\<close>

theorem ao_per_pixel:
  assumes "length d = 4 * n" and "k < n"
  shows "\<exists>a. avg_at d k = Fin a \<and>
      (100 \<le> a \<longrightarrow>
         ao_loop d ! (4 * k) = 255 \<and> ao_loop d ! (4 * k + 1) = 255 \<and>
         ao_loop d ! (4 * k + 2) = 255) \<and>
      (a < 100 \<longrightarrow>
         (\<exists>v. ao_spec (Fin a) = Fin v \<and> 0 \<le> v \<and> v \<le> 255 \<and>
            uint (ao_loop d ! (4 * k)) = round_half_even v \<and>
            ao_loop d ! (4 * k + 1) = ao_loop d ! (4 * k) \<and>
            ao_loop d ! (4 * k + 2) = ao_loop d ! (4 * k) \<and>
            (v - real_of_int \<lfloor>v\<rfloor> \<noteq> 1 / 2 \<longrightarrow> uint (ao_loop d ! (4 * k)) = round v)))"
proof -
  note px = gray_loop64_pixel[OF assms, of ao_val64, folded ao_loop_def]
  obtain a where a: "avg_at d k = Fin a" "0 \<le> a"
    using mean3_range unfolding avg_at_def by blast
  have hi: "toUint8Clamp64 (ao_val64 (Fin a)) = 255" if "100 \<le> a"
    using that by (simp add: ao_val64_def toUint8Clamp_255)
  have lo: "\<exists>v. ao_spec (Fin a) = Fin v \<and> 0 \<le> v \<and> v \<le> 255 \<and>
      uint (toUint8Clamp64 (ao_val64 (Fin a))) = round_half_even v \<and>
      (v - real_of_int \<lfloor>v\<rfloor> \<noteq> 1 / 2 \<longrightarrow>
         uint (toUint8Clamp64 (ao_val64 (Fin a))) = round v)" if lt: "a < 100"
  proof -
    from ao_spec_range[OF a(2) lt] obtain v where v: "ao_spec (Fin a) = Fin v" "0 \<le> v" "v \<le> 255"
      by blast
    have "ao_val64 (Fin a) = Fin v" using lt v(1) by (simp add: ao_val64_def ao_spec_def)
    then show ?thesis
      using v round_half_even_round[of v] by (simp add: uint_toUint8Clamp)
  qed
  show ?thesis using px hi lo a(1) by auto
qed

text \<open>
  Claim C2 as stated fails on the pixel \<open>(10, 0, 0)\<close>: its mean is below 100,
  \<open>avg / 100 * 255\<close> is 8.5 in double precision as in exact arithmetic, \<open>round\<close> gives
  9, and the loop stores 8.
\<close>

theorem ao_round_counterexample:
  "avg_at [10, 0, 0, 255] 0 = Fin (7505999378950827 / 2251799813685248) \<and>
   (7505999378950827 / 2251799813685248 :: real) < 100 \<and>
   ao_spec (avg_at [10, 0, 0, 255] 0) = Fin (17 / 2) \<and>
   round (17 / 2 :: real) = 9 \<and>
   ao_loop [10, 0, 0, 255] = [8, 8, 8, 255]"
proof -
  have s1: "round64 (10 / 3) = Fin (7505999378950827 / 2251799813685248)"
    by (rule round64_eval[where e = "1"]) (simp_all add: round_half_even_def)
  have s2: "round64 (7505999378950827 / 225179981368524800) = Fin (4803839602528529 / 144115188075855872)"
    by (rule round64_eval[where e = "-5"]) (simp_all add: round_half_even_def)
  have s3: "round64 (1224979098644774895 / 144115188075855872) = Fin (17 / 2)"
    by (rule round64_eval[where e = "3"]) (simp_all add: round_half_even_def)
  have v: "ao_val64 (Fin (7505999378950827 / 2251799813685248)) = Fin (17 / 2)"
    by (simp add: ao_val64_def s1 s2 s3)
  have "gray_loop64 ao_val64 0 [10, 0, 0, 255] = [8, 8, 8, 255]"
    by (subst gray_loop64.simps, simp add: Let_def jnum_def s1 v toUint8Clamp_def,
        subst gray_loop64.simps, simp)
  then show ?thesis
    by (simp add: ao_loop_def avg_at_def mean3_def ao_spec_def num_def round_def s1 s2 s3)
qed


text \<open>
  The amended claim on the pixels \<open>(50, 0, 0)\<close>, whose value is a little above 42.5 and
  is stored as 43, and \<open>(100, 100, 100)\<close>, stored as 255.
\<close>

theorem ao_per_pixel_witness:
  "length [50, 0, 0, 255, 100, 100, 100, 255 :: byte] = 4 * 2 \<and> (0::nat) < 2 \<and> (1::nat) < 2 \<and>
   avg_at [50, 0, 0, 255, 100, 100, 100, 255] 0 = Fin (4691249611844267 / 281474976710656) \<and>
   (4691249611844267 / 281474976710656 :: real) < 100 \<and>
   ao_spec (Fin (4691249611844267 / 281474976710656)) = Fin (5981343255101441 / 140737488355328) \<and>
   uint (ao_loop [50, 0, 0, 255, 100, 100, 100, 255] ! 0) = 43 \<and>
   avg_at [50, 0, 0, 255, 100, 100, 100, 255] 1 = Fin 100 \<and>
   ao_loop [50, 0, 0, 255, 100, 100, 100, 255] ! 4 = 255 \<and>
   ao_loop [50, 0, 0, 255, 100, 100, 100, 255] ! 5 = 255 \<and>
   ao_loop [50, 0, 0, 255, 100, 100, 100, 255] ! 6 = 255"
proof -
  have s1: "round64 (50 / 3) = Fin (4691249611844267 / 281474976710656)"
    by (rule round64_eval[where e = "4"]) (simp_all add: round_half_even_def)
  have s2: "round64 (4691249611844267 / 28147497671065600) = Fin (3002399751580331 / 18014398509481984)"
    by (rule round64_eval[where e = "-3"]) (simp_all add: round_half_even_def)
  have s3: "round64 (765611936652984405 / 18014398509481984) = Fin (5981343255101441 / 140737488355328)"
    by (rule round64_eval[where e = "5"]) (simp_all add: round_half_even_def)
  have a0: "avg_at [50, 0, 0, 255, 100, 100, 100, 255] 0 = Fin (4691249611844267 / 281474976710656)"
    by (simp add: avg_at_def mean3_def num_def s1)
  have a1: "avg_at [50, 0, 0, 255, 100, 100, 100, 255] 1 = Fin 100"
    by (simp add: avg_at_def mean3_def num_def)
  have v: "ao_spec (Fin (4691249611844267 / 281474976710656)) = Fin (5981343255101441 / 140737488355328)"
    by (simp add: ao_spec_def s1 s2 s3)
  have b: "round_half_even (5981343255101441 / 140737488355328) = 43"
    by (simp add: round_half_even_def)
  have p: "length [50, 0, 0, 255, 100, 100, 100, 255 :: byte] = 4 * 2" "(0::nat) < 2" "(1::nat) < 2"
    by simp_all
  have lt: "(4691249611844267 / 281474976710656 :: real) < 100" by simp
  from ao_per_pixel[OF p(1,2)] lt obtain w
    where w: "ao_spec (Fin (4691249611844267 / 281474976710656)) = Fin w"
      "uint (ao_loop [50, 0, 0, 255, 100, 100, 100, 255] ! (4 * 0)) = round_half_even w"
    unfolding a0 by blast
  from w(1) have w0: "w = 5981343255101441 / 140737488355328" unfolding v by simp
  from ao_per_pixel[OF p(1,3)]
  have hi: "ao_loop [50, 0, 0, 255, 100, 100, 100, 255] ! (4 * 1) = 255"
    "ao_loop [50, 0, 0, 255, 100, 100, 100, 255] ! (4 * 1 + 1) = 255"
    "ao_loop [50, 0, 0, 255, 100, 100, 100, 255] ! (4 * 1 + 2) = 255"
    unfolding a1 by simp_all
  show ?thesis using w(2) hi a1 by (simp add: w0 b a0 v)
qed


section \<open>The loops of the normal map generator\<close>

lemma length_concat_replicate4:
  "length p = 4 \<Longrightarrow> length (concat (replicate n p)) = 4 * n"
  by (induction n) simp_all

lemma concat_replicate_nth:
  "length p = 4 \<Longrightarrow> k < n \<Longrightarrow> c < 4 \<Longrightarrow> concat (replicate n p) ! (4 * k + c) = p ! c"
proof (induction n arbitrary: k)
  case 0
  then show ?case by simp
next
  case (Suc n)
  show ?case
  proof (cases k)
    case 0
    with Suc.prems show ?thesis by (simp add: nth_append)
  next
    case (Suc k')
    with Suc.prems have "concat (replicate n p) ! (4 * k' + c) = p ! c"
      by (intro Suc.IH) simp_all
    with Suc Suc.prems show ?thesis by (simp add: nth_append)
  qed
qed

lemma write4_nth:
  assumes "4 * q + 3 < length out" "c' < 4"
  shows "(out[4 * q := a0, 4 * q + 1 := a1, 4 * q + 2 := a2, 4 * q + 3 := a3]) ! (4 * q' + c') =
     (if q' = q then [a0, a1, a2, a3] ! c' else out ! (4 * q' + c'))"
proof (cases "q' = q")
  case True
  have "c' = 0 \<or> c' = 1 \<or> c' = 2 \<or> c' = 3" using assms(2) by arith
  then show ?thesis using True assms(1) by (auto simp: nth_list_update)
next
  case False
  then have "4 * q' + c' \<noteq> 4 * q + j" if "j < 4" for j using that assms(2) by arith
  from this[of 0] this[of 1] this[of 2] this[of 3] False show ?thesis by simp
qed

lemma length_normal_pixel: "length (normal_pixel img s x y) = 4"
  by (simp add: normal_pixel_def Let_def)

lemma list4_nth: "length p = 4 \<Longrightarrow> c < 4 \<Longrightarrow> [p ! 0, p ! 1, p ! 2, p ! 3] ! c = p ! c"
proof -
  assume "length p = 4" "c < 4"
  then have "c = 0 \<or> c = 1 \<or> c = 2 \<or> c = 3" by arith
  then show ?thesis by auto
qed

lemma normal_row_fold:
  "normal_row img strength y outData = fold (write_pixel img strength y) [0..<width img] outData"
  by (rule normal_row_def)

lemma length_write_pixel: "length (write_pixel img s y x out) = length out"
  by (simp add: write_pixel_def Let_def)

lemma write_pixel_nth:
  assumes "4 * (y * width img + x) + 3 < length out" "c < 4"
  shows "write_pixel img s y x out ! (4 * q + c) =
     (if q = y * width img + x then normal_pixel img s x y ! c else out ! (4 * q + c))"
proof -
  have "(y * width img + x) * 4 = 4 * (y * width img + x)" by simp
  then show ?thesis
    unfolding write_pixel_def Let_def
    using write4_nth[OF assms, of _ _ _ _ q] list4_nth[OF length_normal_pixel assms(2)]
    by (simp only:)
qed

lemma length_fold_write_pixel:
  "length (fold (write_pixel img s y) xs out) = length out"
  by (induction xs arbitrary: out) (simp_all add: length_write_pixel)

lemma fold_write_pixel_nth:
  assumes "4 * (y * width img + n) \<le> length out" "c < 4"
  shows "fold (write_pixel img s y) [0..<n] out ! (4 * q + c) =
   (if y * width img \<le> q \<and> q < y * width img + n
    then normal_pixel img s (q - y * width img) y ! c else out ! (4 * q + c))"
  using assms
proof (induction n)
  case 0
  then show ?case by auto
next
  case (Suc n)
  let ?o = "fold (write_pixel img s y) [0..<n] out"
  have IH: "?o ! (4 * q + c) =
     (if y * width img \<le> q \<and> q < y * width img + n
      then normal_pixel img s (q - y * width img) y ! c else out ! (4 * q + c))"
    using Suc by simp
  have "4 * (y * width img + n) + 3 < length ?o"
    using Suc.prems by (simp add: length_fold_write_pixel)
  from write_pixel_nth[OF this Suc.prems(2), of s q]
  have "fold (write_pixel img s y) [0..<Suc n] out ! (4 * q + c) =
     (if q = y * width img + n then normal_pixel img s n y ! c else ?o ! (4 * q + c))"
    by simp
  then show ?case using IH by auto
qed

lemma length_normal_row: "length (normal_row img s y out) = length out"
  by (simp add: normal_row_fold length_fold_write_pixel)

lemma normal_row_nth:
  assumes "4 * (y * width img + width img) \<le> length out" "c < 4"
  shows "normal_row img s y out ! (4 * q + c) =
   (if y * width img \<le> q \<and> q < y * width img + width img
    then normal_pixel img s (q - y * width img) y ! c else out ! (4 * q + c))"
  unfolding normal_row_fold by (rule fold_write_pixel_nth[OF assms])

lemma length_fold_normal_row:
  "length (fold (normal_row img s) ys out) = length out"
  by (induction ys arbitrary: out) (simp_all add: length_normal_row)

lemma row_index:
  fixes w :: nat
  assumes "x < w"
  shows "(m * w \<le> y * w + x \<and> y * w + x < m * w + w) = (y = m)"
proof (cases y m rule: linorder_cases)
  case less
  then have "Suc y * w \<le> m * w" by (intro mult_le_mono1) simp
  with assms less show ?thesis by simp
next
  case equal
  with assms show ?thesis by simp
next
  case greater
  then have "Suc m * w \<le> y * w" by (intro mult_le_mono1) simp
  with assms greater show ?thesis by simp
qed

lemma fold_normal_row_nth:
  assumes "m \<le> height img" "length out = 4 * (width img * height img)"
    "x < width img" "y < height img" "c < 4"
  shows "fold (normal_row img s) [0..<m] out ! (4 * (y * width img + x) + c) =
     (if y < m then normal_pixel img s x y ! c else out ! (4 * (y * width img + x) + c))"
  using assms(1)
proof (induction m)
  case 0
  then show ?case by simp
next
  case (Suc m)
  let ?o = "fold (normal_row img s) [0..<m] out"
  have IH: "?o ! (4 * (y * width img + x) + c) =
     (if y < m then normal_pixel img s x y ! c else out ! (4 * (y * width img + x) + c))"
    using Suc by simp
  have "Suc m * width img \<le> height img * width img"
    using Suc.prems by (intro mult_le_mono1)
  then have "4 * (m * width img + width img) \<le> length ?o"
    using assms(2) by (simp add: length_fold_normal_row mult.commute)
  from normal_row_nth[OF this assms(5), of s "y * width img + x"]
  have "fold (normal_row img s) [0..<Suc m] out ! (4 * (y * width img + x) + c) =
     (if y = m then normal_pixel img s x y ! c else ?o ! (4 * (y * width img + x) + c))"
    using row_index[OF assms(3), of m y] by auto
  then show ?case using IH by auto
qed

lemma normal_loop_channel:
  assumes "length out = 4 * (width img * height img)" "x < width img" "y < height img" "c < 4"
  shows "normal_loop img s out ! (4 * (y * width img + x) + c) = normal_pixel img s x y ! c"
  unfolding normal_loop_def using fold_normal_row_nth[OF le_refl assms] assms(3) by simp

lemma length_normal_loop: "length (normal_loop img s out) = length out"
  by (simp add: normal_loop_def length_fold_normal_row)

section \<open>Sampling and the smoothed height\<close>

lemma clamp_coord_less: "0 < n \<Longrightarrow> clamp_coord n v < n"
  by (auto simp: clamp_coord_def)

lemma clamp_coord_int:
  "0 < n \<Longrightarrow> max 0 (min (int n - 1) v) = int (clamp_coord n v)"
  by (auto simp: clamp_coord_def)

lemma sample_luminance:
  assumes "0 < width img" "0 < height img"
  shows "sample img sx sy =
     luminance img (clamp_coord (width img) sx) (clamp_coord (height img) sy)"
proof -
  let ?cx = "clamp_coord (width img) sx" and ?cy = "clamp_coord (height img) sy"
  have "nat ((int ?cx + int ?cy * int (width img)) * 4) = 4 * (?cy * width img + ?cx)"
    by (simp add: nat_add_distrib nat_mult_distrib flip: of_nat_mult of_nat_add)
  then show ?thesis
    by (simp add: sample_def luminance_def channel_def Let_def
        clamp_coord_int[OF assms(1)] clamp_coord_int[OF assms(2)] add.assoc)
qed

text \<open>The reads of \<open>sample\<close> stay inside the buffer.\<close>

lemma sample_in_bounds:
  assumes "wf_image img"
  shows "4 * (clamp_coord (height img) sy * width img + clamp_coord (width img) sx) + 3
           < length (data img)"
proof -
  from assms have w: "0 < width img" and h: "0 < height img"
    and len: "length (data img) = 4 * (width img * height img)"
    by (simp_all add: wf_image_def)
  let ?cx = "clamp_coord (width img) sx" and ?cy = "clamp_coord (height img) sy"
  have cx: "?cx < width img" and cy: "?cy < height img"
    using w h by (simp_all add: clamp_coord_less)
  from cy have "Suc ?cy * width img \<le> height img * width img"
    by (intro mult_le_mono1) simp
  moreover from cx have "?cy * width img + ?cx < Suc ?cy * width img"
    by simp
  ultimately have "?cy * width img + ?cx < width img * height img"
    by (simp only: mult.commute[of "width img"])
  then show ?thesis using len by simp
qed

lemma getSmoothHeight_spec:
  assumes "0 < width img" "0 < height img"
  shows "getSmoothHeight img x y = smoothed_height img x y"
  by (simp add: getSmoothHeight_def smoothed_height_def sample_luminance[OF assms] add.assoc)


lemma pixel_index_less:
  fixes w :: nat
  assumes "x < w" "y < h"
  shows "y * w + x < w * h"
proof -
  from assms(2) have "Suc y * w \<le> h * w" by (intro mult_le_mono1) simp
  with assms(1) show ?thesis by (simp add: mult.commute)
qed

text \<open>The pixel written at \<open>(x, y)\<close>, in the words of the specification.\<close>

lemma normal_pixel_spec:
  assumes "0 < width img" "0 < height img"
  shows "normal_pixel img s x y =
     (let dx = (smoothed_height img (int x - 1) (int y) - smoothed_height img (int x + 1) (int y)) * s;
          dy = (smoothed_height img (int x) (int y - 1) - smoothed_height img (int x) (int y + 1)) * s;
          dz = 1;
          len = sqrt (dx\<^sup>2 + dy\<^sup>2 + dz\<^sup>2)
      in [toUint8Clamp (encode (dx / len)), toUint8Clamp (encode (dy / len)),
          toUint8Clamp (encode (dz / len)), 255])"
  by (simp add: normal_pixel_def getSmoothHeight_spec[OF assms] encode_def Let_def
      power2_eq_square toUint8Clamp_255)

lemma generateNormalMap_ok:
  assumes "decode P src = Some img" "context2d P"
  shows "generateNormalMap P src s =
     Inr \<lparr>width = width img, height = height img,
          data = normal_loop img s (createImageData (width img) (height img))\<rparr>"
  by (simp add: generateNormalMap_def canvas_for_ok[OF assms])


section \<open>The normal map, pixel by pixel\<close>


section \<open>Flat white images\<close>

lemma solid_simps:
  "width (solid w h p) = w" "height (solid w h p) = h"
  "data (solid w h p) = concat (replicate (w * h) p)"
  by (simp_all add: solid_def)

lemma luminance_white:
  assumes "x < w" "y < h"
  shows "luminance (solid w h [255, 255, 255, a]) x y = 1"
proof -
  have "y * w + x < w * h" using assms by (rule pixel_index_less)
  then have "channel (solid w h [255, 255, 255, a]) x y c = [255, 255, 255, a] ! c" if "c < 4" for c
    unfolding channel_def solid_simps using that by (intro concat_replicate_nth) simp_all
  from this[of 0] this[of 1] this[of 2] show ?thesis
    by (simp add: luminance_def num_def)
qed

lemma smoothed_height_white:
  assumes "0 < w" "0 < h"
  shows "smoothed_height (solid w h [255, 255, 255, a]) x y = 1"
  by (simp add: smoothed_height_def solid_simps luminance_white clamp_coord_less assms)

lemma encode_values: "toUint8Clamp (encode 0) = 128" "toUint8Clamp (encode 1) = 255"
  by (simp_all add: encode_def toUint8Clamp_def)

lemma normal_pixel_white:
  assumes "0 < w" "0 < h"
  shows "normal_pixel (solid w h [255, 255, 255, a]) s x y = [128, 128, 255, 255]"
proof -
  have "0 < width (solid w h [255, 255, 255, a])" "0 < height (solid w h [255, 255, 255, a])"
    using assms by (simp_all add: solid_simps)
  from normal_pixel_spec[OF this] show ?thesis
    by (simp add: smoothed_height_white[OF assms] encode_values)
qed

lemma normal_loop_constant:
  assumes "\<And>x y. x < width img \<Longrightarrow> y < height img \<Longrightarrow> normal_pixel img s x y = p"
    and lp: "length p = 4"
  shows "normal_loop img s (createImageData (width img) (height img)) =
     concat (replicate (width img * height img) p)"
proof (rule nth_equalityI)
  let ?w = "width img" and ?h = "height img"
  show "length (normal_loop img s (createImageData ?w ?h)) = length (concat (replicate (?w * ?h) p))"
    by (simp add: length_normal_loop createImageData_def length_concat_replicate4[OF lp])
  fix j assume "j < length (normal_loop img s (createImageData ?w ?h))"
  then have j: "j < 4 * (?w * ?h)"
    by (simp add: length_normal_loop createImageData_def)
  define q where "q = j div 4"
  define c where "c = j mod 4"
  define x where "x = q mod ?w"
  define y where "y = q div ?w"
  have jq: "j = 4 * q + c" and c: "c < 4" by (simp_all add: q_def c_def)
  have q: "q < ?w * ?h" using j by (simp add: q_def)
  have qx: "q = y * ?w + x" by (simp add: x_def y_def)
  have "0 < ?w" using q by (cases "?w") simp_all
  then have x: "x < ?w" by (simp add: x_def)
  have y: "y < ?h" using q by (simp add: y_def less_mult_imp_div_less mult.commute)
  have "normal_loop img s (createImageData ?w ?h) ! (4 * (y * ?w + x) + c) = normal_pixel img s x y ! c"
    by (rule normal_loop_channel[OF _ x y c]) (simp add: createImageData_def)
  also have "\<dots> = p ! c" using assms(1)[OF x y] by simp
  also have "\<dots> = concat (replicate (?w * ?h) p) ! (4 * q + c)"
    using concat_replicate_nth[OF lp q c] by simp
  finally show "normal_loop img s (createImageData ?w ?h) ! j = concat (replicate (?w * ?h) p) ! j"
    by (simp add: jq qx)
qed


text \<open>
  Claim C9. On the flat white image of 4 by 4 pixels the normal map generator with
  strength 2.5 returns the image of 4 by 4 pixels that is \<open>(128, 128, 255, 255)\<close>
  everywhere.
\<close>

theorem normal_flat_white:
  "generateNormalMap (example_platform (solid 4 4 [255, 255, 255, 255])) ''albedo'' 2.5 =
     Inr (solid 4 4 [128, 128, 255, 255])"
proof -
  let ?img = "solid 4 4 [255, 255, 255, 255]"
  have "normal_loop ?img 2.5 (createImageData (width ?img) (height ?img)) =
      concat (replicate (width ?img * height ?img) [128, 128, 255, 255])"
    by (rule normal_loop_constant) (simp_all add: normal_pixel_white)
  then show ?thesis
    by (simp add: generateNormalMap_ok[OF example_platform_simps] solid_simps)
qed

section \<open>The metalness map and the dimensions of the maps\<close>

lemma fillRect_nth:
  "k < w * h \<Longrightarrow> c < 4 \<Longrightarrow> fillRect w h v ! (4 * k + c) = [v, v, v, 255] ! c"
  unfolding fillRect_def by (rule concat_replicate_nth) simp_all

lemma length_fillRect: "length (fillRect w h v) = 4 * (w * h)"
  unfolding fillRect_def by (rule length_concat_replicate4) simp

text \<open>
  Claim C4. For every decoded image and every \<open>isMetal\<close>, the metalness generator
  returns a buffer of the image's dimensions in which R, G and B of every pixel are 255
  when \<open>isMetal\<close> is true and 0 when it is false (alpha is 255); any other image of
  the same dimensions gives the same buffer, whatever its pixels.
\<close>

theorem metalness_uniform:
  assumes "decode P src = Some img" and "context2d P"
    and "decode P' src' = Some img'" and "context2d P'"
    and "width img' = width img" and "height img' = height img"
  shows "\<exists>out. generateMetalnessMap P src isMetal = Inr out \<and>
      generateMetalnessMap P' src' isMetal = Inr out \<and>
      width out = width img \<and> height out = height img \<and>
      length (data out) = 4 * (width img * height img) \<and>
      (\<forall>k < width img * height img.
         data out ! (4 * k) = (if isMetal then 255 else 0) \<and>
         data out ! (4 * k + 1) = (if isMetal then 255 else 0) \<and>
         data out ! (4 * k + 2) = (if isMetal then 255 else 0) \<and>
         data out ! (4 * k + 3) = 255)"
proof -
  let ?v = "if isMetal then 255 else 0 :: byte"
  let ?out = "\<lparr>width = width img, height = height img,
                data = fillRect (width img) (height img) ?v\<rparr>"
  have "generateMetalnessMap P src isMetal = Inr ?out"
    by (simp add: generateMetalnessMap_def canvas_for_ok[OF assms(1,2)])
  moreover have "generateMetalnessMap P' src' isMetal = Inr ?out"
    by (simp add: generateMetalnessMap_def canvas_for_ok[OF assms(3,4)] assms(5,6))
  moreover have "data ?out ! (4 * k + c) = [?v, ?v, ?v, 255] ! c"
    if "k < width img * height img" "c < 4" for k c
    using fillRect_nth[OF that] by simp
  from this[of _ 0] this[of _ 1] this[of _ 2] this[of _ 3]
  have "\<forall>k < width img * height img.
         data ?out ! (4 * k) = ?v \<and> data ?out ! (4 * k + 1) = ?v \<and>
         data ?out ! (4 * k + 2) = ?v \<and> data ?out ! (4 * k + 3) = 255"
    by simp
  ultimately show ?thesis
    by (intro exI[of _ ?out]) (simp add: length_fillRect)
qed

text \<open>Claim C4 on a white and a dark image of one pixel.\<close>

theorem metalness_uniform_witness:
  "decode (example_platform white1) ''a'' = Some white1 \<and> context2d (example_platform white1) \<and>
   decode (example_platform dark1) ''b'' = Some dark1 \<and> context2d (example_platform dark1) \<and>
   width dark1 = width white1 \<and> height dark1 = height white1 \<and> (0::nat) < width white1 * height white1 \<and>
   (\<exists>out. generateMetalnessMap (example_platform white1) ''a'' False = Inr out \<and>
      generateMetalnessMap (example_platform dark1) ''b'' False = Inr out \<and>
      data out ! 0 = 0 \<and> data out ! 1 = 0 \<and> data out ! 2 = 0 \<and> data out ! 3 = 255)"
proof -
  have d: "width dark1 = width white1" "height dark1 = height white1"
    by (simp_all add: white1_def dark1_def solid_def)
  have p: "(0::nat) < width white1 * height white1" by (simp add: white1_def solid_def)
  from metalness_uniform[where src = "''a''" and src' = "''b''" and isMetal = False,
      OF example_platform_simps example_platform_simps d]
  obtain out where o: "generateMetalnessMap (example_platform white1) ''a'' False = Inr out"
      "generateMetalnessMap (example_platform dark1) ''b'' False = Inr out"
    and "\<forall>k < width white1 * height white1.
         data out ! (4 * k) = 0 \<and> data out ! (4 * k + 1) = 0 \<and>
         data out ! (4 * k + 2) = 0 \<and> data out ! (4 * k + 3) = 255"
    by auto
  with p have "data out ! (4 * 0) = 0 \<and> data out ! (4 * 0 + 1) = 0 \<and>
         data out ! (4 * 0 + 2) = 0 \<and> data out ! (4 * 0 + 3) = 255"
    by blast
  then show ?thesis using o d p by (simp add: example_platform_simps numeral_2_eq_2)
qed

text \<open>
  Claim C7. For every decoded image of \<open>W\<close> by \<open>H\<close> pixels, each of the five
  generators returns a map of \<open>W\<close> by \<open>H\<close> pixels, four bytes per pixel.
\<close>

theorem maps_dimensions:
  assumes "decode P src = Some img" and "context2d P" and "wf_image img"
  shows "\<exists>n r a m h.
      generateNormalMap P src strength = Inr n \<and>
      generateRoughnessMap P src multiplier = Inr r \<and>
      generateAOMap P src = Inr a \<and>
      generateMetalnessMap P src isMetal = Inr m \<and>
      generateHeightMap P src = Inr h \<and>
      (\<forall>out \<in> {n, r, a, m, h}.
         width out = width img \<and> height out = height img \<and>
         length (data out) = 4 * (width img * height img))"
proof -
  have len: "length (data img) = 4 * (width img * height img)"
    using assms(3) by (simp add: wf_image_def)
  show ?thesis
    by (simp add: generateNormalMap_ok[OF assms(1,2)] generateRoughnessMap_def generateAOMap_def
        generateMetalnessMap_def generateHeightMap_def canvas_for_ok[OF assms(1,2)]
        length_normal_loop createImageData_def length_gray_loop length_fillRect len)
qed

text \<open>Claim C7 on the white image of one pixel.\<close>

theorem maps_dimensions_witness:
  "decode (example_platform white1) ''albedo'' = Some white1 \<and>
   context2d (example_platform white1) \<and> wf_image white1 \<and>
   (\<exists>n r a m h.
      generateNormalMap (example_platform white1) ''albedo'' 2.5 = Inr n \<and>
      generateRoughnessMap (example_platform white1) ''albedo'' 0.72 = Inr r \<and>
      generateAOMap (example_platform white1) ''albedo'' = Inr a \<and>
      generateMetalnessMap (example_platform white1) ''albedo'' False = Inr m \<and>
      generateHeightMap (example_platform white1) ''albedo'' = Inr h \<and>
      width n = 1 \<and> height n = 1 \<and> length (data n) = 4 \<and>
      width r = 1 \<and> height r = 1 \<and> length (data r) = 4 \<and>
      width a = 1 \<and> height a = 1 \<and> length (data a) = 4 \<and>
      width m = 1 \<and> height m = 1 \<and> length (data m) = 4 \<and>
      width h = 1 \<and> height h = 1 \<and> length (data h) = 4)"
proof -
  have h3: "wf_image white1" unfolding white1_def by (rule wf_solid1)
  have dims: "width white1 = 1" "height white1 = 1" by (simp_all add: white1_def solid_def)
  show ?thesis
    using maps_dimensions[where src = "''albedo''" and strength = "2.5" and multiplier = "0.72"
        and isMetal = False, OF example_platform_simps h3] h3
    unfolding dims by (auto simp: example_platform_simps)
qed

section \<open>The norm of the decoded normal\<close>














section \<open>The metadata fallback\<close>

lemma number_or_not_numeric:
  "\<not> numeric_field v k \<Longrightarrow> get_prop v k = Some x \<Longrightarrow> number_or x d = d"
  by (cases v; cases x) (auto split: option.splits json.splits)

lemma parse_metadata_malformed:
  assumes "malformed resp"
  shows "parse_metadata resp = None \<or> parse_metadata resp = Some default_metadata"
proof (cases resp)
  case TextAbsent
  then show ?thesis by (simp add: parse_metadata_def default_metadata_def)
next
  case TextUnparseable
  then show ?thesis by (simp add: parse_metadata_def)
next
  case (TextJson v)
  with assms have nn: "\<not> numeric_field v ''suggestedRoughness''"
    "\<not> numeric_field v ''suggestedMetalness''" by simp_all
  show ?thesis
    using TextJson number_or_not_numeric[OF nn(1)] number_or_not_numeric[OF nn(2)]
    by (auto simp: parse_metadata_def default_metadata_def split: option.splits)
qed

lemma analyze_malformed:
  assumes "generateContent P url = ApiReturns resp" "malformed resp"
  shows "analyzeTextureMetadata P url = Inr default_metadata"
  using parse_metadata_malformed[OF assms(2)] assms(1)
  by (auto simp: analyzeTextureMetadata_def)

lemma analyze_throws:
  "generateContent P url = ApiThrows e \<Longrightarrow> analyzeTextureMetadata P url = Inl e"
  by (simp add: analyzeTextureMetadata_def)

lemma derive_maps_ok:
  assumes "analyzeTextureMetadata P url = Inr md" "decode P url = Some img" "context2d P"
  shows "\<exists>n r m a h.
      generateNormalMap P url 2.5 = Inr n \<and>
      generateRoughnessMap P url (roughness_multiplier md) = Inr r \<and>
      generateMetalnessMap P url (metal_flag md) = Inr m \<and>
      generateAOMap P url = Inr a \<and>
      generateHeightMap P url = Inr h \<and>
      derive_maps P url =
        Inr (md, \<lparr>albedo = Some url, normal = Some n, roughness = Some r,
                  metalness = Some m, ao = Some a, height_map = Some h\<rparr>)"
  by (simp add: derive_maps_def assms(1) generateNormalMap_ok[OF assms(2,3)]
      generateRoughnessMap_def generateMetalnessMap_def generateAOMap_def generateHeightMap_def
      canvas_for_ok[OF assms(2,3)])

lemma handle_error_sets: "error (handle_error e s) \<noteq> None" "maps (handle_error e s) = maps s"
  by (auto simp: handle_error_def split: option.splits)

lemma default_args:
  "roughness_multiplier default_metadata = 0.6 * 1.2" "metal_flag default_metadata = False"
  "js_or (suggestedRoughness default_metadata) 0.6 = 0.6"
  "js_or (suggestedMetalness default_metadata) 0 = 0"
  by (simp_all add: roughness_multiplier_def metal_flag_def default_metadata_def js_or_def)

text \<open>
  Claim C3, amended. With an image that decodes and a canvas context: when the analysis
  request itself fails, the pipeline fails too, it derives no map and reports an error;
  when the service returns malformed output (text that is absent or cannot be parsed,
  or a value without numeric suggestions), the pipeline does not fail and proceeds with
  the defaults: suggested roughness 0.6, which makes the roughness generator's
  multiplier \<open>0.6 * 1.2\<close> and the roughness intensity 0.6, and metal flag false.
\<close>

theorem metadata_fallback:
  assumes "decode P url = Some img" and "context2d P"
  shows "(\<forall>e. generateContent P url = ApiThrows e \<longrightarrow>
            derive_maps P url = Inl e \<and>
            maps (processAllMaps P url s) = maps s \<and>
            error (processAllMaps P url s) \<noteq> None) \<and>
         (\<forall>resp. generateContent P url = ApiReturns resp \<and> malformed resp \<longrightarrow>
            analyzeTextureMetadata P url = Inr default_metadata \<and>
            (\<exists>n r m a h.
               generateNormalMap P url 2.5 = Inr n \<and>
               generateRoughnessMap P url (0.6 * 1.2) = Inr r \<and>
               generateMetalnessMap P url False = Inr m \<and>
               generateAOMap P url = Inr a \<and>
               generateHeightMap P url = Inr h \<and>
               processAllMaps P url s =
                 s\<lparr>maps := \<lparr>albedo = Some url, normal = Some n, roughness = Some r,
                              metalness = Some m, ao = Some a, height_map = Some h\<rparr>,
                   settings := (settings s)\<lparr>roughnessIntensity := 0.6, metalnessIntensity := 0\<rparr>,
                   isGenerating := False, error := None\<rparr>))"
proof (intro conjI allI impI)
  fix e assume t: "generateContent P url = ApiThrows e"
  then show d: "derive_maps P url = Inl e"
    by (simp add: derive_maps_def analyze_throws)
  show "maps (processAllMaps P url s) = maps s"
    by (simp add: processAllMaps_def d handle_error_sets)
  show "error (processAllMaps P url s) \<noteq> None"
    by (simp add: processAllMaps_def d handle_error_sets)
next
  fix resp assume "generateContent P url = ApiReturns resp \<and> malformed resp"
  then have an: "analyzeTextureMetadata P url = Inr default_metadata"
    by (simp add: analyze_malformed)
  then show "analyzeTextureMetadata P url = Inr default_metadata" .
  from derive_maps_ok[OF an assms] obtain n r m a h where
    g: "generateNormalMap P url 2.5 = Inr n"
      "generateRoughnessMap P url (0.6 * 1.2) = Inr r"
      "generateMetalnessMap P url False = Inr m"
      "generateAOMap P url = Inr a"
      "generateHeightMap P url = Inr h"
    and d: "derive_maps P url =
        Inr (default_metadata, \<lparr>albedo = Some url, normal = Some n, roughness = Some r,
                  metalness = Some m, ao = Some a, height_map = Some h\<rparr>)"
    unfolding default_args by blast
  have "processAllMaps P url s =
      s\<lparr>maps := \<lparr>albedo = Some url, normal = Some n, roughness = Some r,
                   metalness = Some m, ao = Some a, height_map = Some h\<rparr>,
        settings := (settings s)\<lparr>roughnessIntensity := 0.6, metalnessIntensity := 0\<rparr>,
        isGenerating := False, error := None\<rparr>"
    by (simp add: processAllMaps_def d default_metadata_def js_or_def)
  with g show "\<exists>n r m a h.
               generateNormalMap P url 2.5 = Inr n \<and>
               generateRoughnessMap P url (0.6 * 1.2) = Inr r \<and>
               generateMetalnessMap P url False = Inr m \<and>
               generateAOMap P url = Inr a \<and>
               generateHeightMap P url = Inr h \<and>
               processAllMaps P url s =
                 s\<lparr>maps := \<lparr>albedo = Some url, normal = Some n, roughness = Some r,
                              metalness = Some m, ao = Some a, height_map = Some h\<rparr>,
                   settings := (settings s)\<lparr>roughnessIntensity := 0.6, metalnessIntensity := 0\<rparr>,
                   isGenerating := False, error := None\<rparr>"
    by blast
qed


lemma platform_of_simps:
  "decode (platform_of img r) src = Some img" "context2d (platform_of img r)"
  "generateContent (platform_of img r) url = r"
  by (simp_all add: platform_of_def)

text \<open>The amended claim on a failing request and on text that cannot be parsed.\<close>

theorem metadata_fallback_witness:
  "decode failing_platform ''albedo'' = Some white1 \<and> context2d failing_platform \<and>
   generateContent failing_platform ''albedo'' = ApiThrows (JsError ''fetch failed'') \<and>
   derive_maps failing_platform ''albedo'' = Inl (JsError ''fetch failed'') \<and>
   maps (processAllMaps failing_platform ''albedo'' initial_state) = maps initial_state \<and>
   error (processAllMaps failing_platform ''albedo'' initial_state) \<noteq> None \<and>
   decode garbled_platform ''albedo'' = Some white1 \<and> context2d garbled_platform \<and>
   generateContent garbled_platform ''albedo'' = ApiReturns TextUnparseable \<and>
   malformed TextUnparseable \<and>
   analyzeTextureMetadata garbled_platform ''albedo'' = Inr default_metadata \<and>
   error (processAllMaps garbled_platform ''albedo'' initial_state) = None \<and>
   roughnessIntensity (settings (processAllMaps garbled_platform ''albedo'' initial_state)) = 0.6"
proof -
  have f: "decode failing_platform ''albedo'' = Some white1" "context2d failing_platform"
    "generateContent failing_platform ''albedo'' = ApiThrows (JsError ''fetch failed'')"
    by (simp_all add: failing_platform_def platform_of_simps)
  have g: "decode garbled_platform ''albedo'' = Some white1" "context2d garbled_platform"
    "generateContent garbled_platform ''albedo'' = ApiReturns TextUnparseable"
    by (simp_all add: garbled_platform_def platform_of_simps)
  from metadata_fallback[OF f(1,2), of initial_state] f(3)
  have 1: "derive_maps failing_platform ''albedo'' = Inl (JsError ''fetch failed'') \<and>
      maps (processAllMaps failing_platform ''albedo'' initial_state) = maps initial_state \<and>
      error (processAllMaps failing_platform ''albedo'' initial_state) \<noteq> None"
    by blast
  from metadata_fallback[OF g(1,2), of initial_state] g(3)
  have "analyzeTextureMetadata garbled_platform ''albedo'' = Inr default_metadata \<and>
      (\<exists>ms. processAllMaps garbled_platform ''albedo'' initial_state =
         initial_state\<lparr>maps := ms,
           settings := (settings initial_state)\<lparr>roughnessIntensity := 0.6, metalnessIntensity := 0\<rparr>,
           isGenerating := False, error := None\<rparr>)"
    by (metis malformed.simps(3))
  then have 2: "analyzeTextureMetadata garbled_platform ''albedo'' = Inr default_metadata \<and>
      error (processAllMaps garbled_platform ''albedo'' initial_state) = None \<and>
      roughnessIntensity (settings (processAllMaps garbled_platform ''albedo'' initial_state)) = 0.6"
    by auto
  show ?thesis using f g 1 2 by simp
qed

text \<open>
  Claim C3 as stated fails when the request throws: the state after
  \<open>processAllMaps\<close> is the initial one with an error message, all maps still absent.
  The multiplier that the defaults give the roughness generator is not 0.6 either.
\<close>

theorem metadata_fallback_counterexample:
  "generateContent failing_platform ''albedo'' = ApiThrows (JsError ''fetch failed'') \<and>
   processAllMaps failing_platform ''albedo'' initial_state =
     initial_state\<lparr>error := Some ''fetch failed''\<rparr> \<and>
   maps (initial_state\<lparr>error := Some ''fetch failed''\<rparr>) =
     \<lparr>albedo = None, normal = None, roughness = None, metalness = None, ao = None,
      height_map = None\<rparr> \<and>
   roughness_multiplier default_metadata \<noteq> 0.6"
proof -
  have "derive_maps failing_platform ''albedo'' = Inl (JsError ''fetch failed'')"
    by (simp add: derive_maps_def analyzeTextureMetadata_def failing_platform_def platform_of_simps)
  moreover have "\<not> includes_str ''fetch failed'' ''leaked''" "\<not> includes_str ''fetch failed'' ''403''"
    by simp_all
  ultimately show ?thesis
    by (simp add: processAllMaps_def handle_error_def initial_state_def default_args
        failing_platform_def platform_of_simps)
qed

section \<open>Suggestions of zero\<close>

lemma analyze_numbers:
  assumes "generateContent P url = ApiReturns (TextJson (JObj ps))"
    and "map_of ps ''suggestedRoughness'' = Some (JNum r)"
    and "map_of ps ''suggestedMetalness'' = Some (JNum m)"
  shows "analyzeTextureMetadata P url = Inr \<lparr>suggestedRoughness = r, suggestedMetalness = m\<rparr>"
  using assms by (simp add: analyzeTextureMetadata_def parse_metadata_def)

lemma processAllMaps_ok:
  assumes "analyzeTextureMetadata P url = Inr md" "decode P url = Some img" "context2d P"
  shows "\<exists>n r m a h.
      generateNormalMap P url 2.5 = Inr n \<and>
      generateRoughnessMap P url (roughness_multiplier md) = Inr r \<and>
      generateMetalnessMap P url (metal_flag md) = Inr m \<and>
      generateAOMap P url = Inr a \<and>
      generateHeightMap P url = Inr h \<and>
      processAllMaps P url s =
        s\<lparr>maps := \<lparr>albedo = Some url, normal = Some n, roughness = Some r,
                     metalness = Some m, ao = Some a, height_map = Some h\<rparr>,
          settings := (settings s)\<lparr>roughnessIntensity := js_or (suggestedRoughness md) 0.6,
                                   metalnessIntensity := js_or (suggestedMetalness md) 0\<rparr>,
          isGenerating := False, error := None\<rparr>"
proof -
  from derive_maps_ok[OF assms] obtain n r m a h where
    g: "generateNormalMap P url 2.5 = Inr n"
      "generateRoughnessMap P url (roughness_multiplier md) = Inr r"
      "generateMetalnessMap P url (metal_flag md) = Inr m"
      "generateAOMap P url = Inr a"
      "generateHeightMap P url = Inr h"
    and d: "derive_maps P url =
        Inr (md, \<lparr>albedo = Some url, normal = Some n, roughness = Some r,
                  metalness = Some m, ao = Some a, height_map = Some h\<rparr>)"
    by blast
  have "processAllMaps P url s =
        s\<lparr>maps := \<lparr>albedo = Some url, normal = Some n, roughness = Some r,
                     metalness = Some m, ao = Some a, height_map = Some h\<rparr>,
          settings := (settings s)\<lparr>roughnessIntensity := js_or (suggestedRoughness md) 0.6,
                                   metalnessIntensity := js_or (suggestedMetalness md) 0\<rparr>,
          isGenerating := False, error := None\<rparr>"
    by (simp add: processAllMaps_def d)
  with g show ?thesis by blast
qed

lemma generators_same:
  assumes "decode Q = decode P" "context2d Q = context2d P"
  shows "generateNormalMap Q = generateNormalMap P"
    "generateRoughnessMap Q = generateRoughnessMap P"
    "generateMetalnessMap Q = generateMetalnessMap P"
    "generateAOMap Q = generateAOMap P"
    "generateHeightMap Q = generateHeightMap P"
  by (intro ext, simp add: generateNormalMap_def generateRoughnessMap_def
      generateMetalnessMap_def generateAOMap_def generateHeightMap_def
      canvas_for_def loadImage_def assms split: option.splits)+

lemma processAllMaps_same:
  assumes "analyzeTextureMetadata P url = Inr md" "analyzeTextureMetadata Q url = Inr md'"
    and "decode P url = Some img" "context2d P"
    and "decode Q = decode P" "context2d Q = context2d P"
    and "js_or (suggestedRoughness md') 0.6 = js_or (suggestedRoughness md) 0.6"
    and "js_or (suggestedMetalness md') 0 = js_or (suggestedMetalness md) 0"
  shows "processAllMaps P url s = processAllMaps Q url s"
proof -
  have Q: "decode Q url = Some img" "context2d Q"
    using assms(3-6) by simp_all
  have args: "roughness_multiplier md' = roughness_multiplier md" "metal_flag md' = metal_flag md"
    using assms(7,8) by (simp_all add: roughness_multiplier_def metal_flag_def)
  from processAllMaps_ok[OF assms(1,3,4), of s] processAllMaps_ok[OF assms(2) Q, of s]
  show ?thesis unfolding generators_same[OF assms(5,6)] args assms(7,8) by auto
qed

text \<open>
  Claim C10. When the service returns numbers for both suggestions and the suggested
  roughness is 0, the pipeline puts 0.6 in its place: the roughness generator gets the
  multiplier \<open>0.6 * 1.2\<close>, the roughness intensity becomes 0.6, and the outcome is the
  one of a response without the roughness. A suggested metalness of 0 gives the outcome
  of a response without the metalness, and both being 0 gives the outcome of the
  fallback.
\<close>

theorem zero_suggestion_replaced:
  assumes "generateContent P url = ApiReturns (TextJson (JObj ps))"
    and "map_of ps ''suggestedRoughness'' = Some (JNum rg)"
    and "map_of ps ''suggestedMetalness'' = Some (JNum mt)"
    and "decode P url = Some img" and "context2d P"
  shows "analyzeTextureMetadata P url = Inr \<lparr>suggestedRoughness = rg, suggestedMetalness = mt\<rparr> \<and>
     (rg = 0 \<longrightarrow>
        (\<exists>r. generateRoughnessMap P url (0.6 * 1.2) = Inr r \<and>
             roughness (maps (processAllMaps P url s)) = Some r) \<and>
        roughnessIntensity (settings (processAllMaps P url s)) = 0.6 \<and>
        processAllMaps P url s =
          processAllMaps (P\<lparr>generateContent := \<lambda>u. ApiReturns (TextJson (JObj
            [(''suggestedMetalness'', JNum mt)]))\<rparr>) url s) \<and>
     (mt = 0 \<longrightarrow>
        processAllMaps P url s =
          processAllMaps (P\<lparr>generateContent := \<lambda>u. ApiReturns (TextJson (JObj
            [(''suggestedRoughness'', JNum rg)]))\<rparr>) url s) \<and>
     (rg = 0 \<and> mt = 0 \<longrightarrow>
        processAllMaps P url s =
          processAllMaps (P\<lparr>generateContent := \<lambda>u. ApiReturns TextUnparseable\<rparr>) url s)"
proof -
  let ?md = "\<lparr>suggestedRoughness = rg, suggestedMetalness = mt\<rparr>"
  have an: "analyzeTextureMetadata P url = Inr ?md"
    using assms(1-3) by (rule analyze_numbers)
  note same = processAllMaps_same[OF an _ assms(4,5), of _ _ s]
  have 1: "\<exists>r. generateRoughnessMap P url (0.6 * 1.2) = Inr r \<and>
             roughness (maps (processAllMaps P url s)) = Some r"
    and 2: "roughnessIntensity (settings (processAllMaps P url s)) = 0.6" if "rg = 0"
  proof -
    have mult: "roughness_multiplier ?md = 0.6 * 1.2" "js_or (suggestedRoughness ?md) 0.6 = 0.6"
      using that by (simp_all add: roughness_multiplier_def js_or_def)
    from processAllMaps_ok[OF an assms(4,5), of s] obtain n r m a h where
      g: "generateRoughnessMap P url (0.6 * 1.2) = Inr r"
      and p: "processAllMaps P url s =
        s\<lparr>maps := \<lparr>albedo = Some url, normal = Some n, roughness = Some r,
                     metalness = Some m, ao = Some a, height_map = Some h\<rparr>,
          settings := (settings s)\<lparr>roughnessIntensity := 0.6,
                                   metalnessIntensity := js_or (suggestedMetalness ?md) 0\<rparr>,
          isGenerating := False, error := None\<rparr>"
      unfolding mult by blast
    from g p show "\<exists>r. generateRoughnessMap P url (0.6 * 1.2) = Inr r \<and>
             roughness (maps (processAllMaps P url s)) = Some r" by simp
    from p show "roughnessIntensity (settings (processAllMaps P url s)) = 0.6" by simp
  qed
  have 3: "processAllMaps P url s =
      processAllMaps (P\<lparr>generateContent := \<lambda>u. ApiReturns (TextJson (JObj
        [(''suggestedMetalness'', JNum mt)]))\<rparr>) url s" if "rg = 0"
    using that
    by (intro same[of _ "\<lparr>suggestedRoughness = 0.6, suggestedMetalness = mt\<rparr>"])
      (simp_all add: analyzeTextureMetadata_def parse_metadata_def js_or_def)
  have 4: "processAllMaps P url s =
      processAllMaps (P\<lparr>generateContent := \<lambda>u. ApiReturns (TextJson (JObj
        [(''suggestedRoughness'', JNum rg)]))\<rparr>) url s" if "mt = 0"
    using that
    by (intro same[of _ "\<lparr>suggestedRoughness = rg, suggestedMetalness = 0.0\<rparr>"])
      (simp_all add: analyzeTextureMetadata_def parse_metadata_def js_or_def)
  have 5: "processAllMaps P url s =
      processAllMaps (P\<lparr>generateContent := \<lambda>u. ApiReturns TextUnparseable\<rparr>) url s"
    if "rg = 0" "mt = 0"
    using that
    by (intro same[of _ default_metadata])
      (simp_all add: analyzeTextureMetadata_def parse_metadata_def js_or_def default_metadata_def)
  show ?thesis using an 1 2 3 4 5 by blast
qed

text \<open>Claim C10 on a response with both suggestions 0.\<close>

theorem zero_suggestion_replaced_witness:
  "generateContent zero_platform ''albedo'' = ApiReturns (TextJson (JObj
     [(''suggestedRoughness'', JNum 0), (''suggestedMetalness'', JNum 0)])) \<and>
   map_of [(''suggestedRoughness'', JNum 0), (''suggestedMetalness'', JNum 0)]
     ''suggestedRoughness'' = Some (JNum 0) \<and>
   map_of [(''suggestedRoughness'', JNum 0), (''suggestedMetalness'', JNum 0)]
     ''suggestedMetalness'' = Some (JNum 0) \<and>
   decode zero_platform ''albedo'' = Some white1 \<and> context2d zero_platform \<and>
   roughnessIntensity (settings (processAllMaps zero_platform ''albedo'' initial_state)) = 0.6 \<and>
   processAllMaps zero_platform ''albedo'' initial_state =
     processAllMaps (zero_platform\<lparr>generateContent := \<lambda>u. ApiReturns TextUnparseable\<rparr>)
       ''albedo'' initial_state"
proof -
  have z: "generateContent zero_platform ''albedo'' = ApiReturns (TextJson (JObj
       [(''suggestedRoughness'', JNum 0), (''suggestedMetalness'', JNum 0)]))"
    "decode zero_platform ''albedo'' = Some white1" "context2d zero_platform"
    by (simp_all add: zero_platform_def platform_of_simps)
  have m: "map_of [(''suggestedRoughness'', JNum 0), (''suggestedMetalness'', JNum 0)]
       ''suggestedRoughness'' = Some (JNum 0)"
    "map_of [(''suggestedRoughness'', JNum 0), (''suggestedMetalness'', JNum 0)]
       ''suggestedMetalness'' = Some (JNum 0)"
    by simp_all
  note t = zero_suggestion_replaced[OF z(1) m z(2,3), of initial_state]
  from t have a: "roughnessIntensity
      (settings (processAllMaps zero_platform ''albedo'' initial_state)) = 0.6"
    by blast
  from t have b: "processAllMaps zero_platform ''albedo'' initial_state =
     processAllMaps (zero_platform\<lparr>generateContent := \<lambda>u. ApiReturns TextUnparseable\<rparr>)
       ''albedo'' initial_state"
    by blast
  show ?thesis using z m a b by blast
qed

end
